theory Spec2Isabelle
  imports Main "HOL-Library.AList"
begin

section \<open>AG-UI protocol models (core/models/agui.models.ts)\<close>

text \<open>
  Payloads typed \<^verbatim>\<open>any\<close> in the source are values of a type parameter \<open>'a\<close>.
  A payload that is \<^verbatim>\<open>null\<close> or \<^verbatim>\<open>undefined\<close> is \<open>None\<close>. Priorities and the
  component cap are \<open>int\<close>: the source's \<^verbatim>\<open>number\<close> restricted to integers, for which
  \<^verbatim>\<open>a.priority - b.priority\<close> has the sign of the exact difference.
\<close>

datatype preferred_style = compact | expanded | minimal
datatype interaction_mode = interactive | readonly
datatype layout_preference = list_layout | grid_layout | cards_layout

record renderer_hints =
  preferred_style :: "preferred_style option"
  interaction_mode :: "interaction_mode option"
  layout_preference :: "layout_preference option"
  show_header :: "bool option"
  collapsible :: "bool option"

record agui_spec =
  spec_version :: string
  renderer_hints :: "renderer_hints option"

record 'a AGUIComponent =
  comp_id :: string
  comp_type :: string
  title :: string
  priority :: int
  category :: string
  comp_data :: "'a option"
  agui_spec :: agui_spec

datatype message_type = component_render | chat_response

text \<open>The optional \<^verbatim>\<open>metadata\<close> block of a message is read by no function modelled here
  and is left out of the record.\<close>

record 'a AGUIMessage =
  version :: string
  message_type :: message_type
  session_id :: string
  timestamp :: string
  components :: "'a AGUIComponent list option"

section \<open>Message validation (AguiService)\<close>

definition validateComponent :: "'a AGUIComponent \<Rightarrow> bool" where
  "validateComponent component =
     (if comp_id component = [] \<or> comp_type component = [] then False
      else if comp_data component = None then False
      else True)"

text \<open>\<^verbatim>\<open>!message || !message.components || !Array.isArray(message.components)\<close>, then the
  version test against the literal \<^verbatim>\<open>'1.0'\<close>, then every component in turn.\<close>

definition validateAguiMessage :: "'a AGUIMessage option \<Rightarrow> bool" where
  "validateAguiMessage message =
     (case message of
        None \<Rightarrow> False
      | Some msg \<Rightarrow>
          (case components msg of
             None \<Rightarrow> False
           | Some cs \<Rightarrow>
               if version msg = [] \<or> version msg \<noteq> ''1.0'' then False
               else list_all validateComponent cs))"

section \<open>Component registry (ComponentRegistryService)\<close>

text \<open>
  A widget class is known to the registry only as a factory. What matters of it here is
  its name and whether an instance of it carries the two optional callbacks of the
  \<^verbatim>\<open>DynamicComponent\<close> interface when the registry and the renderer test for them
  (\<^verbatim>\<open>if (instance.onDataChange)\<close>).
\<close>

record component_class =
  className :: string
  definesOnDataChange :: bool
  definesOnInteraction :: bool

record ComponentMetadata =
  componentClass :: component_class
  fallbackType :: "string option"
  requiresInteraction :: bool
  md_category :: string
  displayName :: string
  description :: string

type_synonym registry = "string \<Rightarrow> ComponentMetadata option"

definition DEFAULT_FALLBACK :: string where
  "DEFAULT_FALLBACK = ''text_section''"

text \<open>The per-instance data: the component's own fields and the \<^verbatim>\<open>_agui\<close> block the
  renderer adds.\<close>

record AguiMetadata =
  agui_id :: string
  agui_type :: string
  agui_title :: string
  agui_priority :: int
  agui_category :: string
  spec :: agui_spec

record 'a widget_data =
  own_fields :: "'a option"
  agui :: "AguiMetadata option"

text \<open>
  A callback slot of a widget holds a closure. Two closures are ever stored there by the
  code: the empty one the registry installs, and the renderer's bridge, which captures the
  manifest entry it was created for.
\<close>

datatype 'a handler = RegistryStub | RendererBridge "'a AGUIComponent"

record 'a DynamicComponent =
  data :: "'a widget_data"
  onDataChange :: "'a handler option"
  onInteraction :: "'a handler option"

text \<open>
  The host container (Angular's \<^verbatim>\<open>ViewContainerRef\<close>) is an external collaborator. It
  holds the mounted views in order; \<open>allocated\<close> numbers the views ever created, so that
  every new view has a fresh identity. \<^verbatim>\<open>createComponent\<close> appends a view,
  \<^verbatim>\<open>clear\<close> destroys all of them.
\<close>

record container =
  views :: "nat list"
  allocated :: nat

record 'a ComponentRef =
  hostView :: nat
  instance_of :: "'a DynamicComponent"

definition mount :: "container \<Rightarrow> container" where
  "mount c = c\<lparr>views := views c @ [allocated c], allocated := Suc (allocated c)\<rparr>"

definition clear :: "container \<Rightarrow> container" where
  "clear c = c\<lparr>views := []\<rparr>"

text \<open>
  Inside the \<^verbatim>\<open>try\<close> block of \<^verbatim>\<open>createComponent\<close> two calls into the host can throw:
  \<^verbatim>\<open>container.createComponent\<close> (nothing is mounted) and the first
  \<^verbatim>\<open>detectChanges\<close> (the view is mounted already). What the host does is a parameter
  of the model: any function of the container, the class and the payload.
\<close>

datatype host_outcome = CreateThrows string | DetectChangesThrows string | Renders

type_synonym 'a host = "container \<Rightarrow> component_class \<Rightarrow> 'a option \<Rightarrow> host_outcome"

datatype creation_error = ConfigurationError | HostFailure string

record 'a ComponentCreationResult =
  componentRef :: "'a ComponentRef"
  metadata :: ComponentMetadata
  wasOriginalType :: bool
  actualType :: string

definition fallbackMappings :: "(string \<times> string) list" where
  "fallbackMappings =
     [(''data_table'', ''text_section''),
      (''checklist'', ''text_section''),
      (''alert_list'', ''text_section''),
      (''timeline'', ''text_section''),
      (''metrics_grid'', ''text_section''),
      (''progress_bar'', ''text_section''),
      (''decision_log'', ''text_section''),
      (''people_grid'', ''text_section''),
      (''comparison_table'', ''text_section''),
      (''status_cards'', ''text_section'')]"

text \<open>
  For a requested type that names a member inherited from \<^verbatim>\<open>Object.prototype\<close> the
  lookup in the object literal is truthy but no registry key, so the source returns no
  metadata too; the type it returns with it is overwritten by the caller before use.
\<close>

definition findFallbackComponent :: "registry \<Rightarrow> string \<Rightarrow> ComponentMetadata option \<times> string" where
  "findFallbackComponent reg requestedType =
     (case map_of fallbackMappings requestedType of
        Some fallbackTo \<Rightarrow> (reg fallbackTo, fallbackTo)
      | None \<Rightarrow> (None, requestedType))"

text \<open>The \<^verbatim>\<open>try\<close> block, for the metadata and the two flags the lookup has settled on. A
  callback the instance carries is replaced by the registry's empty stub.\<close>

definition instantiate ::
  "'a host \<Rightarrow> container \<Rightarrow> ComponentMetadata \<Rightarrow> bool \<Rightarrow> string \<Rightarrow> 'a option
     \<Rightarrow> (creation_error \<times> container) + ('a ComponentCreationResult \<times> container)" where
  "instantiate host c md wasOriginal actual d =
     (case host c (componentClass md) d of
        CreateThrows e \<Rightarrow> Inl (HostFailure e, c)
      | DetectChangesThrows e \<Rightarrow> Inl (HostFailure e, mount c)
      | Renders \<Rightarrow>
          Inr (\<lparr>componentRef =
                  \<lparr>hostView = allocated c,
                   instance_of =
                     \<lparr>data = \<lparr>own_fields = d, agui = None\<rparr>,
                      onDataChange =
                        (if definesOnDataChange (componentClass md) then Some RegistryStub else None),
                      onInteraction =
                        (if definesOnInteraction (componentClass md) then Some RegistryStub else None)\<rparr>\<rparr>,
                metadata = md,
                wasOriginalType = wasOriginal,
                actualType = actual\<rparr>,
               mount c))"

text \<open>
  \<^verbatim>\<open>createComponent\<close>: the requested type, else its static fallback, else the default
  fallback, else the configuration error; then the \<^verbatim>\<open>try\<close> block, whose \<^verbatim>\<open>catch\<close>
  rethrows. A failure returns the container as the failure left it.
\<close>

definition createComponent ::
  "registry \<Rightarrow> 'a host \<Rightarrow> string \<Rightarrow> container \<Rightarrow> 'a option
     \<Rightarrow> (creation_error \<times> container) + ('a ComponentCreationResult \<times> container)" where
  "createComponent reg host requestedType c d =
     (let (metadata1, actualType1, wasOriginalType1) =
            (case reg requestedType of
               Some md \<Rightarrow> (Some md, requestedType, True)
             | None \<Rightarrow>
                 (let fallbackResult = findFallbackComponent reg requestedType
                  in (fst fallbackResult, snd fallbackResult, False)));
          (metadata2, actualType2, wasOriginalType2) =
            (case metadata1 of
               Some md \<Rightarrow> (metadata1, actualType1, wasOriginalType1)
             | None \<Rightarrow> (reg DEFAULT_FALLBACK, DEFAULT_FALLBACK, False))
      in case metadata2 of
           None \<Rightarrow> Inl (ConfigurationError, c)
         | Some md \<Rightarrow> instantiate host c md wasOriginalType2 actualType2 d)"

text \<open>What \<^verbatim>\<open>${error}\<close> prints for the value thrown; a host failure carries its text.\<close>

definition error_text :: "creation_error \<Rightarrow> string" where
  "error_text e =
     (case e of
        ConfigurationError \<Rightarrow>
          ''Error: ComponentRegistryService: Default fallback component 'text_section' not registered!''
      | HostFailure s \<Rightarrow> s)"

section \<open>Dynamic renderer (DynamicRendererComponent)\<close>

text \<open>The object a widget passes to its interaction callback: an optional \<^verbatim>\<open>type\<close>
  and the rest of the object.\<close>

record 'a hook_event =
  event_type :: "string option"
  payload :: 'a

record 'a ComponentInteractionEvent =
  i_componentId :: string
  i_componentType :: string
  eventType :: string
  eventData :: "'a hook_event"
  i_timestamp :: int

record 'a ComponentDataChangeEvent =
  d_componentId :: string
  d_componentType :: string
  oldData :: "'a widget_data"
  newData :: "'a widget_data"
  d_timestamp :: int

text \<open>
  The two count tables are plain object literals used as dictionaries, kept here as
  association lists; the order of the keys plays no part. A cell holds a number or, once
  \<^verbatim>\<open>+ 1\<close> has met a value that is no number, a string.
\<close>

datatype count_cell = Count nat | Text

type_synonym counts = "(string \<times> count_cell) list"

record RenderStatistics =
  totalComponents :: nat
  componentsByType :: counts
  componentsByCategory :: counts
  renderTime :: int
  fallbacksUsed :: nat

text \<open>The names every object literal inherits from \<^verbatim>\<open>Object.prototype\<close>.\<close>

definition inheritedNames :: "string list" where
  "inheritedNames =
     [''constructor'', ''hasOwnProperty'', ''isPrototypeOf'', ''propertyIsEnumerable'',
      ''toLocaleString'', ''toString'', ''valueOf'', ''__defineGetter__'',
      ''__defineSetter__'', ''__lookupGetter__'', ''__lookupSetter__'', ''__proto__'']"

text \<open>
  \<^verbatim>\<open>table[key] = (table[key] || 0) + 1\<close>. An own number is incremented; an own string
  stays a string. Without an own property the read finds \<^verbatim>\<open>undefined\<close>, and the cell
  becomes 1, unless the key is an inherited name: then the read finds a function or
  object, \<^verbatim>\<open>+ 1\<close> makes a string of it, and the write stores that string, except under
  \<^verbatim>\<open>__proto__\<close>, whose setter ignores a string.
\<close>

definition increment :: "counts \<Rightarrow> string \<Rightarrow> counts" where
  "increment table key =
     (case map_of table key of
        Some (Count n) \<Rightarrow> AList.update key (Count (n + 1)) table
      | Some Text \<Rightarrow> AList.update key Text table
      | None \<Rightarrow>
          if key = ''__proto__'' then table
          else if key \<in> set inheritedNames then AList.update key Text table
          else AList.update key (Count 1) table)"

text \<open>The sum of the counts of a table; there is none when a cell is no number.\<close>

fun sumCounts :: "counts \<Rightarrow> nat option" where
  "sumCounts [] = Some 0"
| "sumCounts ((k, Count n) # rest) = map_option (\<lambda>s. n + s) (sumCounts rest)"
| "sumCounts ((k, Text) # rest) = None"

text \<open>
  \<^verbatim>\<open>AguiService.getMessageStats\<close> counts a manifest's entries with the same two tables,
  and answers with zeroes for a message the validator turns down.
\<close>

record message_stats =
  componentCount :: nat
  stats_componentsByType :: counts
  stats_componentsByCategory :: counts

definition getMessageStats :: "'a AGUIMessage \<Rightarrow> message_stats" where
  "getMessageStats message =
     (if \<not> validateAguiMessage (Some message) then
        \<lparr>componentCount = 0, stats_componentsByType = [], stats_componentsByCategory = []\<rparr>
      else
        (let cs = (case components message of None \<Rightarrow> [] | Some xs \<Rightarrow> xs)
         in \<lparr>componentCount = length cs,
             stats_componentsByType = foldl (\<lambda>table c. increment table (comp_type c)) [] cs,
             stats_componentsByCategory = foldl (\<lambda>table c. increment table (category c)) [] cs\<rparr>))"

text \<open>
  The renderer's fields. The four \<^verbatim>\<open>@Output\<close> emitters are the lists of what they have
  emitted, oldest first; \<open>renderError\<close> holds the message of each emitted \<^verbatim>\<open>Error\<close>.
  The inputs that only steer presentation (\<^verbatim>\<open>showLoading\<close>, \<^verbatim>\<open>showDebugInfo\<close>,
  \<^verbatim>\<open>enableAnimations\<close>) are left out. A call of a public method is modelled as a whole:
  nothing else runs between its \<^verbatim>\<open>await\<close>s.
\<close>

record 'a renderer =
  aguiMessage :: "'a AGUIMessage option"
  maxComponents :: int
  dynamicContainer :: container
  createdComponents :: "'a ComponentRef list"
  renderStats :: RenderStatistics
  isRendering :: bool
  renderErrorMessage :: "string option"
  componentInteraction :: "'a ComponentInteractionEvent list"
  componentDataChange :: "'a ComponentDataChangeEvent list"
  renderComplete :: "RenderStatistics list"
  renderError :: "string list"

definition zeroStats :: RenderStatistics where
  "zeroStats =
     \<lparr>totalComponents = 0, componentsByType = [], componentsByCategory = [],
      renderTime = 0, fallbacksUsed = 0\<rparr>"

text \<open>The renderer as constructed, around a given (empty) container.\<close>

definition newRenderer :: "container \<Rightarrow> 'a renderer" where
  "newRenderer c =
     \<lparr>aguiMessage = None, maxComponents = 50, dynamicContainer = c,
      createdComponents = [], renderStats = zeroStats, isRendering = False,
      renderErrorMessage = None, componentInteraction = [], componentDataChange = [],
      renderComplete = [], renderError = []\<rparr>"

definition resetRenderStats :: "'a renderer \<Rightarrow> 'a renderer" where
  "resetRenderStats st = st\<lparr>renderStats := zeroStats\<rparr>"

text \<open>
  \<^verbatim>\<open>destroyAllComponents\<close>. Its loop calls \<^verbatim>\<open>componentRef.destroy()\<close> under the guard
  \<^verbatim>\<open>componentRef && !componentRef.destroy\<close>, that is only for a reference that has no
  such method; every \<^verbatim>\<open>ComponentRef\<close> has one, so the loop does nothing. The array is
  then emptied and the container cleared, which destroys the views. The container is a
  static view child, present from the first lifecycle hook on, so the test
  \<^verbatim>\<open>if (this.dynamicContainer)\<close> holds.
\<close>

definition destroyAllComponents :: "'a renderer \<Rightarrow> 'a renderer" where
  "destroyAllComponents st =
     st\<lparr>createdComponents := [], dynamicContainer := clear (dynamicContainer st)\<rparr>"

definition clearComponents :: "'a renderer \<Rightarrow> 'a renderer" where
  "clearComponents st = resetRenderStats (destroyAllComponents st)"

text \<open>\<^verbatim>\<open>instance.data = {...aguiComponent.data, _agui: {...}}\<close>: a fresh object, built
  from the manifest entry.\<close>

definition setupComponentMetadata :: "'a ComponentRef \<Rightarrow> 'a AGUIComponent \<Rightarrow> 'a ComponentRef" where
  "setupComponentMetadata ref aguiComponent =
     ref\<lparr>instance_of := (instance_of ref)
       \<lparr>data :=
          \<lparr>own_fields = comp_data aguiComponent,
           agui = Some \<lparr>agui_id = comp_id aguiComponent,
                        agui_type = comp_type aguiComponent,
                        agui_title = title aguiComponent,
                        agui_priority = priority aguiComponent,
                        agui_category = category aguiComponent,
                        spec = agui_spec aguiComponent\<rparr>\<rparr>\<rparr>\<rparr>"

text \<open>A callback that is present is replaced by the renderer's bridge; an absent one
  stays absent.\<close>

definition setupComponentEventHandlers :: "'a ComponentRef \<Rightarrow> 'a AGUIComponent \<Rightarrow> 'a ComponentRef" where
  "setupComponentEventHandlers ref aguiComponent =
     ref\<lparr>instance_of := (instance_of ref)
       \<lparr>onDataChange :=
          (if onDataChange (instance_of ref) \<noteq> None then Some (RendererBridge aguiComponent)
           else onDataChange (instance_of ref)),
        onInteraction :=
          (if onInteraction (instance_of ref) \<noteq> None then Some (RendererBridge aguiComponent)
           else onInteraction (instance_of ref))\<rparr>\<rparr>"

definition updateRenderStats ::
  "'a AGUIComponent \<Rightarrow> 'a ComponentCreationResult \<Rightarrow> 'a renderer \<Rightarrow> 'a renderer" where
  "updateRenderStats aguiComponent result st =
     st\<lparr>renderStats := (renderStats st)
       \<lparr>totalComponents := totalComponents (renderStats st) + 1,
        componentsByType := increment (componentsByType (renderStats st)) (actualType result),
        componentsByCategory :=
          increment (componentsByCategory (renderStats st)) (category aguiComponent),
        fallbacksUsed :=
          (if \<not> wasOriginalType result then fallbacksUsed (renderStats st) + 1
           else fallbacksUsed (renderStats st))\<rparr>\<rparr>"

definition failureMessage :: "'a AGUIComponent \<Rightarrow> creation_error \<Rightarrow> string" where
  "failureMessage aguiComponent e =
     ''Failed to render component '' @ comp_id aguiComponent @ '' of type ''
       @ comp_type aguiComponent @ '': '' @ error_text e"

text \<open>
  \<^verbatim>\<open>renderSingleComponent\<close>. The reference pushed onto \<^verbatim>\<open>createdComponents\<close> is the
  object the two setup calls then change, so the list holds the widget as they leave it.
  A failure is rethrown as a new \<^verbatim>\<open>Error\<close> with the message built here.
\<close>

definition renderSingleComponent ::
  "registry \<Rightarrow> 'a host \<Rightarrow> 'a AGUIComponent \<Rightarrow> 'a renderer \<Rightarrow> (string \<times> 'a renderer) + 'a renderer" where
  "renderSingleComponent reg host aguiComponent st =
     (case createComponent reg host (comp_type aguiComponent) (dynamicContainer st)
             (comp_data aguiComponent) of
        Inl (e, c') \<Rightarrow> Inl (failureMessage aguiComponent e, st\<lparr>dynamicContainer := c'\<rparr>)
      | Inr (result, c') \<Rightarrow>
          Inr (updateRenderStats aguiComponent result
                 (st\<lparr>dynamicContainer := c',
                     createdComponents := createdComponents st @
                       [setupComponentEventHandlers
                          (setupComponentMetadata (componentRef result) aguiComponent)
                          aguiComponent]\<rparr>)))"

text \<open>The \<^verbatim>\<open>for\<close> loop of \<^verbatim>\<open>renderComponents\<close>: one entry after the other, left by the
  first failure.\<close>

fun renderEach ::
  "registry \<Rightarrow> 'a host \<Rightarrow> 'a AGUIComponent list \<Rightarrow> 'a renderer \<Rightarrow> (string \<times> 'a renderer) + 'a renderer" where
  "renderEach reg host [] st = Inr st"
| "renderEach reg host (aguiComponent # rest) st =
     (case renderSingleComponent reg host aguiComponent st of
        Inl failure \<Rightarrow> Inl failure
      | Inr st' \<Rightarrow> renderEach reg host rest st')"

text \<open>\<^verbatim>\<open>xs.slice(0, n)\<close>: a negative \<open>n\<close> counts from the end.\<close>

definition slice0 :: "'b list \<Rightarrow> int \<Rightarrow> 'b list" where
  "slice0 xs n = (if n < 0 then take (nat (int (length xs) + n)) xs else take (nat n) xs)"

text \<open>\<^verbatim>\<open>[...components].sort((a, b) => a.priority - b.priority).slice(0, maxComponents)\<close>;
  the sort of an array is stable.\<close>

definition sortedComponents :: "'a renderer \<Rightarrow> 'a AGUIComponent list \<Rightarrow> 'a AGUIComponent list" where
  "sortedComponents st cs = slice0 (sort_key priority cs) (maxComponents st)"

text \<open>
  \<^verbatim>\<open>renderComponents\<close>, with the two readings of \<^verbatim>\<open>performance.now()\<close> as arguments.
  The guard \<^verbatim>\<open>!this.aguiMessage?.components\<close> holds for a missing message and a missing
  array; an empty array is truthy. Every value thrown inside \<^verbatim>\<open>try\<close> is the \<^verbatim>\<open>Error\<close>
  of \<^verbatim>\<open>renderSingleComponent\<close>, so the \<^verbatim>\<open>catch\<close> takes its message.
\<close>

definition renderComponents ::
  "registry \<Rightarrow> 'a host \<Rightarrow> int \<Rightarrow> int \<Rightarrow> 'a renderer \<Rightarrow> 'a renderer" where
  "renderComponents reg host startTime endTime st =
     (case (case aguiMessage st of None \<Rightarrow> None | Some msg \<Rightarrow> components msg) of
        None \<Rightarrow> clearComponents st
      | Some cs \<Rightarrow>
          (let st1 = st\<lparr>isRendering := True, renderErrorMessage := None\<rparr>;
               st2 = resetRenderStats (destroyAllComponents st1)
           in case renderEach reg host (sortedComponents st2 cs) st2 of
                Inr st3 \<Rightarrow>
                  (let st4 = st3\<lparr>renderStats := (renderStats st3)\<lparr>renderTime := endTime - startTime\<rparr>\<rparr>
                   in st4\<lparr>renderComplete := renderComplete st4 @ [renderStats st4],
                          isRendering := False\<rparr>)
              | Inl (message, st3) \<Rightarrow>
                  st3\<lparr>renderErrorMessage := Some message,
                      renderError := renderError st3 @ [message],
                      isRendering := False\<rparr>))"

subsection \<open>The bridges, as a widget calls them\<close>

text \<open>\<^verbatim>\<open>eventData.type || 'interaction'\<close>: a missing or empty type gives the default.\<close>

definition eventTypeOf :: "'a hook_event \<Rightarrow> string" where
  "eventTypeOf ev =
     (case event_type ev of None \<Rightarrow> ''interaction'' | Some t \<Rightarrow> if t = [] then ''interaction'' else t)"

text \<open>
  The widget at position \<open>i\<close> of \<^verbatim>\<open>createdComponents\<close> calls its \<^verbatim>\<open>onInteraction\<close> with
  \<open>ev\<close>; \<open>now\<close> is what \<^verbatim>\<open>new Date()\<close> reads. The widgets call a callback only when it
  is present, and the registry's stub has an empty body.
\<close>

definition invokeOnInteraction :: "nat \<Rightarrow> 'a hook_event \<Rightarrow> int \<Rightarrow> 'a renderer \<Rightarrow> 'a renderer" where
  "invokeOnInteraction i ev now st =
     (if i < length (createdComponents st) then
        (case onInteraction (instance_of (createdComponents st ! i)) of
           Some (RendererBridge aguiComponent) \<Rightarrow>
             st\<lparr>componentInteraction := componentInteraction st @
                  [\<lparr>i_componentId = comp_id aguiComponent,
                    i_componentType = comp_type aguiComponent,
                    eventType = eventTypeOf ev,
                    eventData = ev,
                    i_timestamp = now\<rparr>]\<rparr>
         | Some RegistryStub \<Rightarrow> st
         | None \<Rightarrow> st)
      else st)"

text \<open>The same for \<^verbatim>\<open>onDataChange\<close>; \<^verbatim>\<open>oldData\<close> is read from the instance when the
  bridge runs, and the bridge assigns nothing.\<close>

definition invokeOnDataChange :: "nat \<Rightarrow> 'a widget_data \<Rightarrow> int \<Rightarrow> 'a renderer \<Rightarrow> 'a renderer" where
  "invokeOnDataChange i newD now st =
     (if i < length (createdComponents st) then
        (case onDataChange (instance_of (createdComponents st ! i)) of
           Some (RendererBridge aguiComponent) \<Rightarrow>
             st\<lparr>componentDataChange := componentDataChange st @
                  [\<lparr>d_componentId = comp_id aguiComponent,
                    d_componentType = comp_type aguiComponent,
                    oldData = data (instance_of (createdComponents st ! i)),
                    newData = newD,
                    d_timestamp = now\<rparr>]\<rparr>
         | Some RegistryStub \<Rightarrow> st
         | None \<Rightarrow> st)
      else st)"

subsection \<open>Reading a pass off the managed instances\<close>

text \<open>
  A reference is \<open>renderedFor\<close> a manifest entry when its widget holds the data
  \<^verbatim>\<open>setupComponentMetadata\<close> builds from that entry and each of its callbacks is absent
  or the renderer's bridge for that entry.
\<close>

definition renderedFor :: "'a ComponentRef \<Rightarrow> 'a AGUIComponent \<Rightarrow> bool" where
  "renderedFor ref aguiComponent =
     (data (instance_of ref) = data (instance_of (setupComponentMetadata ref aguiComponent))
      \<and> (onDataChange (instance_of ref) = None
           \<or> onDataChange (instance_of ref) = Some (RendererBridge aguiComponent))
      \<and> (onInteraction (instance_of ref) = None
           \<or> onInteraction (instance_of ref) = Some (RendererBridge aguiComponent)))"

text \<open>The statistics agree with the managed instances: as many instances as the total
  says, and each count table summing up to the total.\<close>

definition statsConsistent :: "'a renderer \<Rightarrow> bool" where
  "statsConsistent st =
     (totalComponents (renderStats st) = length (createdComponents st)
      \<and> sumCounts (componentsByType (renderStats st)) = Some (totalComponents (renderStats st))
      \<and> sumCounts (componentsByCategory (renderStats st)) = Some (totalComponents (renderStats st)))"

text \<open>The state a pass starts its loop from: flags set, instances destroyed, statistics
  reset.\<close>

definition passStart :: "'a renderer \<Rightarrow> 'a renderer" where
  "passStart st =
     resetRenderStats (destroyAllComponents (st\<lparr>isRendering := True, renderErrorMessage := None\<rparr>))"

section \<open>Registration and the widget classes of the repository\<close>

text \<open>\<^verbatim>\<open>registerComponent\<close> takes a partial metadata object and fills the gaps
  (\<^verbatim>\<open>??\<close>).\<close>

record partial_metadata =
  p_fallbackType :: "string option"
  p_requiresInteraction :: "bool option"
  p_category :: "string option"
  p_displayName :: "string option"
  p_description :: "string option"

definition registerComponent ::
  "string \<Rightarrow> component_class \<Rightarrow> partial_metadata \<Rightarrow> registry \<Rightarrow> registry" where
  "registerComponent t cls m reg =
     reg(t \<mapsto>
       \<lparr>componentClass = cls,
        fallbackType = p_fallbackType m,
        requiresInteraction = (case p_requiresInteraction m of None \<Rightarrow> False | Some b \<Rightarrow> b),
        md_category = (case p_category m of None \<Rightarrow> ''general'' | Some c \<Rightarrow> c),
        displayName = (case p_displayName m of None \<Rightarrow> t | Some n \<Rightarrow> n),
        description =
          (case p_description m of None \<Rightarrow> ''Dynamic '' @ t @ '' component'' | Some x \<Rightarrow> x)\<rparr>)"

definition unregisterComponent :: "string \<Rightarrow> registry \<Rightarrow> registry" where
  "unregisterComponent t reg = reg(t := None)"

definition clearRegistry :: registry where
  "clearRegistry = Map.empty"

text \<open>
  The six widget classes declare both callbacks without an initialiser
  (\<^verbatim>\<open>onDataChange?: (newData: any) => void;\<close>), so a fresh instance carries neither.
\<close>

definition widgetClass :: "string \<Rightarrow> component_class" where
  "widgetClass name = \<lparr>className = name, definesOnDataChange = False, definesOnInteraction = False\<rparr>"

definition interactiveEntry :: "string \<Rightarrow> string \<Rightarrow> string \<Rightarrow> partial_metadata" where
  "interactiveEntry cat name descr =
     \<lparr>p_fallbackType = None, p_requiresInteraction = Some True, p_category = Some cat,
      p_displayName = Some name, p_description = Some descr\<rparr>"

definition initializeRegistry :: registry where
  "initializeRegistry =
     (registerComponent ''status_cards'' (widgetClass ''StatusCardsComponent'')
        (interactiveEntry ''overview'' ''Status Cards''
           ''Status overview cards for departments, projects, or features with progress tracking'')
     (registerComponent ''metrics_grid'' (widgetClass ''MetricsGridComponent'')
        (interactiveEntry ''outcome'' ''Metrics Grid''
           ''Grid of key performance indicators, statistics, and metrics with trend visualization'')
     (registerComponent ''timeline'' (widgetClass ''TimelineComponent'')
        (interactiveEntry ''outcome'' ''Timeline''
           ''Chronological view of events, milestones, and deadlines with status tracking'')
     (registerComponent ''alert_list'' (widgetClass ''AlertListComponent'')
        (interactiveEntry ''risk'' ''Alert List''
           ''Interactive alerts, risks, and issues with severity levels and status tracking'')
     (registerComponent ''checklist'' (widgetClass ''ChecklistComponent'')
        (interactiveEntry ''action'' ''Checklist''
           ''Interactive task list with checkboxes, progress tracking, and status management'')
     (registerComponent ''text_section'' (widgetClass ''TextSectionComponent'')
        (interactiveEntry ''content'' ''Text Section''
           ''Displays formatted text content with optional key points and metadata'')
        clearRegistry))))))"

section \<open>Values used as concrete inputs\<close>

text \<open>A widget class whose instances carry both callbacks from construction, and a
  registry that serves it as \<^verbatim>\<open>text_section\<close>.\<close>

definition probeClass :: component_class where
  "probeClass =
     \<lparr>className = ''ProbeComponent'', definesOnDataChange = True, definesOnInteraction = True\<rparr>"

definition probeRegistry :: registry where
  "probeRegistry =
     registerComponent ''text_section'' probeClass
       \<lparr>p_fallbackType = None, p_requiresInteraction = None, p_category = None,
        p_displayName = None, p_description = None\<rparr> clearRegistry"

definition probeMetadata :: ComponentMetadata where
  "probeMetadata =
     \<lparr>componentClass = probeClass, fallbackType = None, requiresInteraction = False,
      md_category = ''general'', displayName = ''text_section'',
      description = ''Dynamic text_section component''\<rparr>"

definition emptyContainer :: container where
  "emptyContainer = \<lparr>views = [], allocated = 0\<rparr>"

text \<open>A host that creates every widget, and one that rejects the class named.\<close>

definition acceptingHost :: "nat host" where
  "acceptingHost c cls d = Renders"

definition rejectingHost :: "string \<Rightarrow> nat host" where
  "rejectingHost name c cls d =
     (if className cls = name then CreateThrows ''Error: host rejected'' else Renders)"

definition plainSpec :: agui_spec where
  "plainSpec = \<lparr>spec_version = ''1.0'', renderer_hints = None\<rparr>"

definition entry :: "string \<Rightarrow> string \<Rightarrow> int \<Rightarrow> string \<Rightarrow> nat AGUIComponent" where
  "entry i t p cat =
     \<lparr>comp_id = i, comp_type = t, title = ''Title'', priority = p, category = cat,
      comp_data = Some 0, agui_spec = plainSpec\<rparr>"

definition manifest :: "string \<Rightarrow> nat AGUIComponent list option \<Rightarrow> nat AGUIMessage" where
  "manifest v cs =
     \<lparr>version = v, message_type = component_render, session_id = ''session'',
      timestamp = ''2024-01-01T00:00:00Z'', components = cs\<rparr>"

definition rendererWith :: "nat AGUIMessage option \<Rightarrow> nat renderer" where
  "rendererWith m = (newRenderer emptyContainer)\<lparr>aguiMessage := m\<rparr>"

text \<open>Three entries given out of order; the host of the scenario rejects the checklist
  widget.\<close>

definition threeEntries :: "nat AGUIComponent list" where
  "threeEntries =
     [entry ''c3'' ''text_section'' 3 ''content'',
      entry ''c1'' ''text_section'' 1 ''content'',
      entry ''c2'' ''checklist'' 2 ''action'']"

text \<open>The renderer holding \<open>threeEntries\<close> under a cap of two, and the renderer
  holding one entry for the probe widget.\<close>

definition cappedRenderer :: "nat renderer" where
  "cappedRenderer = (rendererWith (Some (manifest ''1.0'' (Some threeEntries))))\<lparr>maxComponents := 2\<rparr>"

definition oneEntry :: "nat AGUIComponent" where
  "oneEntry = entry ''c1'' ''text_section'' 1 ''content''"

definition probeRenderer :: "nat renderer" where
  "probeRenderer = rendererWith (Some (manifest ''1.0'' (Some [oneEntry])))"

text \<open>The probe renderer after its pass, from reading 0 to reading 1 of the clock.\<close>

definition probeRendered :: "nat renderer" where
  "probeRendered = renderComponents probeRegistry acceptingHost 0 1 probeRenderer"

definition clickEvent :: "nat hook_event" where
  "clickEvent = \<lparr>event_type = Some ''click'', payload = 7\<rparr>"

definition untypedEvent :: "nat hook_event" where
  "untypedEvent = \<lparr>event_type = None, payload = 7\<rparr>"

definition changedData :: "nat widget_data" where
  "changedData = \<lparr>own_fields = Some 42, agui = None\<rparr>"

text \<open>Manifests of one entry: one of an unsupported version, and two whose category is
  a name every object inherits.\<close>

definition unsupportedVersion :: "nat AGUIMessage" where
  "unsupportedVersion = manifest ''2.0'' (Some [oneEntry])"

definition constructorCategory :: "nat AGUIMessage" where
  "constructorCategory = manifest ''1.0'' (Some [entry ''c1'' ''text_section'' 1 ''constructor''])"

definition protoCategory :: "nat AGUIMessage" where
  "protoCategory = manifest ''1.0'' (Some [entry ''c1'' ''text_section'' 1 ''__proto__''])"

lemmas registry_defs =
  registerComponent_def clearRegistry_def probeRegistry_def probeClass_def
  initializeRegistry_def widgetClass_def interactiveEntry_def

lemmas creation_defs =
  createComponent_def findFallbackComponent_def fallbackMappings_def DEFAULT_FALLBACK_def
  instantiate_def mount_def

lemmas renderer_defs =
  renderComponents_def sortedComponents_def slice0_def resetRenderStats_def
  destroyAllComponents_def clearComponents_def clear_def renderSingleComponent_def
  updateRenderStats_def setupComponentMetadata_def setupComponentEventHandlers_def
  increment_def inheritedNames_def zeroStats_def newRenderer_def

lemmas input_defs =
  unsupportedVersion_def constructorCategory_def protoCategory_def
  probeRendered_def cappedRenderer_def oneEntry_def probeRenderer_def clickEvent_def
  untypedEvent_def changedData_def threeEntries_def probeMetadata_def rendererWith_def
  manifest_def entry_def plainSpec_def emptyContainer_def acceptingHost_def
  rejectingHost_def

section \<open>Registry: the fallback chain\<close>

lemma createComponent_registered:
  "reg t = Some md \<Longrightarrow> createComponent reg host t c d = instantiate host c md True t d"
  by (simp add: createComponent_def)

lemma createComponent_fallback:
  "reg t = None \<Longrightarrow> map_of fallbackMappings t = Some y \<Longrightarrow> reg y = Some md \<Longrightarrow>
   createComponent reg host t c d = instantiate host c md False y d"
  by (simp add: createComponent_def findFallbackComponent_def)

lemma fallback_target: "map_of fallbackMappings t = Some y \<Longrightarrow> y = ''text_section''"
  by (auto simp: fallbackMappings_def split: if_splits)

text \<open>
  C9. A requested type that is not registered and has no static fallback mapping, while
  the default fallback type \<^verbatim>\<open>text_section\<close> is not registered either, makes
  \<^verbatim>\<open>createComponent\<close> fail with the configuration error. This happens before anything is
  instantiated: whatever the host would do, it is not asked, and the container comes back
  as it was.
\<close>

theorem createComponent_configuration_error:
  assumes "reg requestedType = None"
    and "map_of fallbackMappings requestedType = None"
    and "reg DEFAULT_FALLBACK = None"
  shows "createComponent reg host requestedType c d = Inl (ConfigurationError, c)
         \<and> DEFAULT_FALLBACK = ''text_section''"
  using assms by (simp add: createComponent_def findFallbackComponent_def DEFAULT_FALLBACK_def)

theorem createComponent_configuration_error_witness:
  "clearRegistry ''unknown_x'' = None
   \<and> map_of fallbackMappings ''unknown_x'' = None
   \<and> clearRegistry DEFAULT_FALLBACK = None
   \<and> createComponent clearRegistry acceptingHost ''unknown_x'' emptyContainer (Some 0)
       = Inl (ConfigurationError, emptyContainer)"
proof -
  have a: "clearRegistry ''unknown_x'' = None" by (simp add: clearRegistry_def)
  have b: "map_of fallbackMappings ''unknown_x'' = None" by (simp add: fallbackMappings_def)
  have c: "clearRegistry DEFAULT_FALLBACK = None" by (simp add: clearRegistry_def)
  from createComponent_configuration_error [OF a b c, of acceptingHost emptyContainer "Some 0"] a b c
  show ?thesis by simp
qed

text \<open>
  C2. Let the requested type \<open>X\<close> be unregistered with a static fallback mapping to a
  registered type \<open>Y\<close>. Then \<^verbatim>\<open>createComponent\<close> returns a result as soon as the host
  creates the widget of \<open>Y\<close>; every result it returns has \<^verbatim>\<open>actualType\<close> \<open>Y\<close>,
  \<^verbatim>\<open>wasOriginalType\<close> false and the metadata of \<open>Y\<close>, and recording it with
  \<^verbatim>\<open>updateRenderStats\<close> raises \<^verbatim>\<open>fallbacksUsed\<close> by exactly one. The only failure left
  is the host's own, never the configuration error.
\<close>

theorem createComponent_static_fallback:
  assumes "reg X = None"
    and "map_of fallbackMappings X = Some Y"
    and "reg Y = Some mdY"
  shows "(host c (componentClass mdY) d = Renders \<longrightarrow>
            (\<exists>result c'. createComponent reg host X c d = Inr (result, c')))
       \<and> (\<forall>result c'. createComponent reg host X c d = Inr (result, c') \<longrightarrow>
            actualType result = Y \<and> \<not> wasOriginalType result \<and> metadata result = mdY
            \<and> (\<forall>aguiComponent st.
                  fallbacksUsed (renderStats (updateRenderStats aguiComponent result st))
                    = fallbacksUsed (renderStats st) + 1))
       \<and> (\<forall>e c'. createComponent reg host X c d = Inl (e, c') \<longrightarrow>
            e \<noteq> ConfigurationError \<and> host c (componentClass mdY) d \<noteq> Renders)"
proof -
  have eq: "createComponent reg host X c d = instantiate host c mdY False Y d"
    using assms by (rule createComponent_fallback)
  show ?thesis
    unfolding eq
    by (cases "host c (componentClass mdY) d")
       (auto simp: instantiate_def updateRenderStats_def)
qed


theorem createComponent_static_fallback_witness:
  "probeRegistry ''checklist'' = None
   \<and> map_of fallbackMappings ''checklist'' = Some ''text_section''
   \<and> probeRegistry ''text_section'' = Some probeMetadata
   \<and> acceptingHost emptyContainer (componentClass probeMetadata) (Some 0) = Renders
   \<and> (case createComponent probeRegistry acceptingHost ''checklist'' emptyContainer (Some 0) of
         Inl failure \<Rightarrow> False
       | Inr (result, c') \<Rightarrow>
           actualType result = ''text_section'' \<and> wasOriginalType result = False
           \<and> metadata result = probeMetadata
           \<and> fallbacksUsed (renderStats (updateRenderStats (entry ''c1'' ''checklist'' 1 ''action'')
                result (rendererWith None))) = 1)"
proof -
  have a: "probeRegistry ''checklist'' = None" by (simp add: registry_defs)
  have b: "map_of fallbackMappings ''checklist'' = Some ''text_section''"
    by (simp add: fallbackMappings_def)
  have c: "probeRegistry ''text_section'' = Some probeMetadata"
    by (simp add: registry_defs probeMetadata_def)
  have h: "acceptingHost emptyContainer (componentClass probeMetadata) (Some 0) = Renders"
    by (simp add: acceptingHost_def)
  note t = createComponent_static_fallback [OF a b c, of acceptingHost emptyContainer "Some 0"]
  from t h obtain result c'
    where r: "createComponent probeRegistry acceptingHost ''checklist'' emptyContainer (Some 0)
                = Inr (result, c')"
    by blast
  from t r have p: "actualType result = ''text_section''" "\<not> wasOriginalType result"
    "metadata result = probeMetadata"
    "fallbacksUsed (renderStats (updateRenderStats (entry ''c1'' ''checklist'' 1 ''action'')
        result (rendererWith None))) = fallbacksUsed (renderStats (rendererWith None)) + 1"
    by blast+
  have z: "fallbacksUsed (renderStats (rendererWith None)) = 0"
    by (simp add: rendererWith_def newRenderer_def zeroStats_def)
  show ?thesis using a b c h r p z by simp
qed

section \<open>Renderer: cleanup\<close>

text \<open>
  C7. Cleanup, as \<^verbatim>\<open>destroyAllComponents\<close> and as \<^verbatim>\<open>clearComponents\<close>, leaves no
  managed instance and an empty container, so every managed instance is released. A
  second call in a row changes nothing. Where no instance exists (none managed, none
  mounted) \<^verbatim>\<open>destroyAllComponents\<close> changes nothing at all, and \<^verbatim>\<open>clearComponents\<close>
  leaves instances and container alone; it changes nothing at all when the statistics
  are zero already, which it resets besides.
\<close>

theorem cleanup_idempotent:
  "createdComponents (destroyAllComponents st) = []
   \<and> views (dynamicContainer (destroyAllComponents st)) = []
   \<and> destroyAllComponents (destroyAllComponents st) = destroyAllComponents st
   \<and> (createdComponents st = [] \<and> views (dynamicContainer st) = []
        \<longrightarrow> destroyAllComponents st = st)
   \<and> createdComponents (clearComponents st) = []
   \<and> views (dynamicContainer (clearComponents st)) = []
   \<and> clearComponents (clearComponents st) = clearComponents st
   \<and> (createdComponents st = [] \<and> views (dynamicContainer st) = []
        \<longrightarrow> createdComponents (clearComponents st) = createdComponents st
          \<and> dynamicContainer (clearComponents st) = dynamicContainer st
          \<and> (renderStats st = zeroStats \<longrightarrow> clearComponents st = st))"
  by (simp add: destroyAllComponents_def clearComponents_def resetRenderStats_def clear_def)

theorem cleanup_idempotent_witness:
  "createdComponents (rendererWith None) = []
   \<and> views (dynamicContainer (rendererWith None)) = []
   \<and> renderStats (rendererWith None) = zeroStats
   \<and> destroyAllComponents (rendererWith None) = rendererWith None
   \<and> clearComponents (rendererWith None) = rendererWith None
   \<and> length (createdComponents probeRendered) = 1
   \<and> views (dynamicContainer probeRendered) = [0]
   \<and> createdComponents (destroyAllComponents probeRendered) = []
   \<and> views (dynamicContainer (destroyAllComponents probeRendered)) = []
   \<and> destroyAllComponents (destroyAllComponents probeRendered) = destroyAllComponents probeRendered"
proof -
  have a: "createdComponents (rendererWith None) = []"
    and b: "views (dynamicContainer (rendererWith None)) = []"
    and c: "renderStats (rendererWith None) = zeroStats"
    by (simp_all add: rendererWith_def newRenderer_def emptyContainer_def)
  have p: "length (createdComponents probeRendered) = 1"
    and v: "views (dynamicContainer probeRendered) = [0]"
    by (simp_all add: renderer_defs input_defs creation_defs registry_defs)
  from cleanup_idempotent [of "rendererWith None"] a b c
  have e: "destroyAllComponents (rendererWith None) = rendererWith None"
    "clearComponents (rendererWith None) = rendererWith None"
    by simp_all
  note r = cleanup_idempotent [of probeRendered]
  show ?thesis
    using a b c e p v r [THEN conjunct1] r [THEN conjunct2, THEN conjunct1]
      r [THEN conjunct2, THEN conjunct2, THEN conjunct1]
    by blast
qed

section \<open>Renderer: what a pass does\<close>

lemma renderComponents_entries:
  assumes "aguiMessage st = Some msg" and "components msg = Some cs"
  shows "renderComponents reg host t0 t1 st =
     (case renderEach reg host (sortedComponents st cs) (passStart st) of
        Inr st3 \<Rightarrow>
          st3\<lparr>renderStats := (renderStats st3)\<lparr>renderTime := t1 - t0\<rparr>,
              renderComplete := renderComplete st3 @ [(renderStats st3)\<lparr>renderTime := t1 - t0\<rparr>],
              isRendering := False\<rparr>
      | Inl (message, st3) \<Rightarrow>
          st3\<lparr>renderErrorMessage := Some message,
              renderError := renderError st3 @ [message],
              isRendering := False\<rparr>)"
  using assms
  by (simp add: renderComponents_def Let_def sortedComponents_def resetRenderStats_def
      destroyAllComponents_def passStart_def split: sum.splits prod.splits)

lemma passStart_fields:
  "createdComponents (passStart st) = []"
  "renderStats (passStart st) = zeroStats"
  "views (dynamicContainer (passStart st)) = []"
  "renderComplete (passStart st) = renderComplete st"
  "renderError (passStart st) = renderError st"
  "componentInteraction (passStart st) = componentInteraction st"
  "componentDataChange (passStart st) = componentDataChange st"
  "renderErrorMessage (passStart st) = None"
  "maxComponents (passStart st) = maxComponents st"
  "aguiMessage (passStart st) = aguiMessage st"
  by (simp_all add: passStart_def resetRenderStats_def destroyAllComponents_def clear_def)

subsection \<open>One entry\<close>

lemma createComponent_container:
  "createComponent reg host t c d = Inr (result, c') \<Longrightarrow>
     c' = mount c \<and> hostView (componentRef result) = allocated c"
  "createComponent reg host t c d = Inl (e, c') \<Longrightarrow> c' = c \<or> c' = mount c"
  by (auto simp: createComponent_def instantiate_def Let_def
      split: option.splits host_outcome.splits prod.splits)

lemma renderSingleComponent_Inl:
  assumes "renderSingleComponent reg host a st = Inl (m, st')"
  shows "\<exists>e c'. createComponent reg host (comp_type a) (dynamicContainer st) (comp_data a) = Inl (e, c')
           \<and> m = failureMessage a e \<and> st' = st\<lparr>dynamicContainer := c'\<rparr>"
  using assms by (auto simp: renderSingleComponent_def split: sum.splits prod.splits)

lemma renderSingleComponent_fails:
  assumes "createComponent reg host (comp_type a) (dynamicContainer st) (comp_data a) = Inl (e, c')"
  shows "renderSingleComponent reg host a st = Inl (failureMessage a e, st\<lparr>dynamicContainer := c'\<rparr>)"
  using assms by (simp add: renderSingleComponent_def)

lemma renderSingleComponent_Inr:
  assumes "renderSingleComponent reg host a st = Inr st'"
  shows "\<exists>result ref.
           createComponent reg host (comp_type a) (dynamicContainer st) (comp_data a)
             = Inr (result, mount (dynamicContainer st))
         \<and> st' = updateRenderStats a result
                   (st\<lparr>dynamicContainer := mount (dynamicContainer st),
                       createdComponents := createdComponents st @ [ref]\<rparr>)
         \<and> ref = setupComponentEventHandlers (setupComponentMetadata (componentRef result) a) a
         \<and> hostView ref = allocated (dynamicContainer st)
         \<and> renderedFor ref a"
proof -
  from assms obtain result c'
    where c: "createComponent reg host (comp_type a) (dynamicContainer st) (comp_data a) = Inr (result, c')"
      and s: "st' = updateRenderStats a result
                   (st\<lparr>dynamicContainer := c',
                       createdComponents := createdComponents st @
                         [setupComponentEventHandlers (setupComponentMetadata (componentRef result) a) a]\<rparr>)"
    by (auto simp: renderSingleComponent_def split: sum.splits prod.splits)
  from createComponent_container(1) [OF c]
  have m: "c' = mount (dynamicContainer st)"
    and h: "hostView (componentRef result) = allocated (dynamicContainer st)" by simp_all
  have r: "renderedFor (setupComponentEventHandlers (setupComponentMetadata (componentRef result) a) a) a"
    by (simp add: renderedFor_def setupComponentEventHandlers_def setupComponentMetadata_def)
  have v: "hostView (setupComponentEventHandlers (setupComponentMetadata (componentRef result) a) a)
             = allocated (dynamicContainer st)"
    using h by (simp add: setupComponentEventHandlers_def setupComponentMetadata_def)
  show ?thesis using c s m r v by blast
qed

text \<open>What a successful entry leaves of the renderer's other fields.\<close>

lemma renderSingleComponent_frame:
  assumes "renderSingleComponent reg host a st = Inr st'"
  shows "renderComplete st' = renderComplete st" "renderError st' = renderError st"
    "componentInteraction st' = componentInteraction st"
    "componentDataChange st' = componentDataChange st"
    "renderErrorMessage st' = renderErrorMessage st" "isRendering st' = isRendering st"
    "maxComponents st' = maxComponents st" "aguiMessage st' = aguiMessage st"
    "totalComponents (renderStats st') = totalComponents (renderStats st) + 1"
    "length (createdComponents st') = length (createdComponents st) + 1"
  using renderSingleComponent_Inr [OF assms]
  by (auto simp: updateRenderStats_def)

subsection \<open>The loop\<close>

lemma renderEach_append:
  "renderEach reg host (xs @ ys) st =
     (case renderEach reg host xs st of
        Inl failure \<Rightarrow> Inl failure
      | Inr st' \<Rightarrow> renderEach reg host ys st')"
  by (induction xs arbitrary: st) (auto split: sum.splits)

lemma renderEach_Inr:
  assumes "renderEach reg host cs st = Inr st'"
  shows "\<exists>refs. createdComponents st' = createdComponents st @ refs
           \<and> list_all2 renderedFor refs cs
           \<and> views (dynamicContainer st') = views (dynamicContainer st) @ map hostView refs"
  using assms
proof (induction cs arbitrary: st)
  case Nil
  then show ?case by simp
next
  case (Cons a cs)
  from Cons.prems obtain st1
    where one: "renderSingleComponent reg host a st = Inr st1"
      and rest: "renderEach reg host cs st1 = Inr st'"
    by (auto split: sum.splits)
  from renderSingleComponent_Inr [OF one] obtain result ref
    where st1: "st1 = updateRenderStats a result
                   (st\<lparr>dynamicContainer := mount (dynamicContainer st),
                       createdComponents := createdComponents st @ [ref]\<rparr>)"
      and hv: "hostView ref = allocated (dynamicContainer st)"
      and rf: "renderedFor ref a"
    by blast
  from Cons.IH [OF rest] obtain refs
    where c: "createdComponents st' = createdComponents st1 @ refs"
      and l: "list_all2 renderedFor refs cs"
      and v: "views (dynamicContainer st') = views (dynamicContainer st1) @ map hostView refs"
    by blast
  have c1: "createdComponents st1 = createdComponents st @ [ref]"
    and v1: "views (dynamicContainer st1) = views (dynamicContainer st) @ [hostView ref]"
    using st1 hv by (simp_all add: updateRenderStats_def mount_def)
  have "createdComponents st' = createdComponents st @ (ref # refs)"
    and "list_all2 renderedFor (ref # refs) (a # cs)"
    and "views (dynamicContainer st') = views (dynamicContainer st) @ map hostView (ref # refs)"
    using c l v c1 v1 rf by simp_all
  then show ?case by blast
qed

lemma renderEach_frame:
  assumes "renderEach reg host cs st = Inr st'"
  shows "renderComplete st' = renderComplete st \<and> renderError st' = renderError st
       \<and> componentInteraction st' = componentInteraction st
       \<and> componentDataChange st' = componentDataChange st
       \<and> renderErrorMessage st' = renderErrorMessage st \<and> isRendering st' = isRendering st
       \<and> maxComponents st' = maxComponents st \<and> aguiMessage st' = aguiMessage st
       \<and> totalComponents (renderStats st') = totalComponents (renderStats st) + length cs
       \<and> length (createdComponents st') = length (createdComponents st) + length cs"
  using assms
proof (induction cs arbitrary: st)
  case Nil
  then show ?case by simp
next
  case (Cons a cs)
  from Cons.prems obtain st1
    where one: "renderSingleComponent reg host a st = Inr st1"
      and rest: "renderEach reg host cs st1 = Inr st'"
    by (auto split: sum.splits)
  show ?case
    using Cons.IH [OF rest] renderSingleComponent_frame [OF one] by simp
qed

lemma renderEach_Inl:
  assumes "renderEach reg host cs st = Inl (m, st')"
  shows "\<exists>pre e post st1 err c'.
           cs = pre @ e # post
         \<and> renderEach reg host pre st = Inr st1
         \<and> createComponent reg host (comp_type e) (dynamicContainer st1) (comp_data e) = Inl (err, c')
         \<and> m = failureMessage e err
         \<and> st' = st1\<lparr>dynamicContainer := c'\<rparr>"
  using assms
proof (induction cs arbitrary: st)
  case Nil
  then show ?case by simp
next
  case (Cons a cs)
  show ?case
  proof (cases "renderSingleComponent reg host a st")
    case (Inl failure)
    with Cons.prems have f: "renderSingleComponent reg host a st = Inl (m, st')" by simp
    from renderSingleComponent_Inl [OF f] obtain e c'
      where "createComponent reg host (comp_type a) (dynamicContainer st) (comp_data a) = Inl (e, c')"
        and "m = failureMessage a e" and "st' = st\<lparr>dynamicContainer := c'\<rparr>"
      by blast
    then have "a # cs = [] @ a # cs \<and> renderEach reg host [] st = Inr st
         \<and> createComponent reg host (comp_type a) (dynamicContainer st) (comp_data a) = Inl (e, c')
         \<and> m = failureMessage a e \<and> st' = st\<lparr>dynamicContainer := c'\<rparr>"
      by simp
    then show ?thesis by blast
  next
    case (Inr st1)
    with Cons.prems have rest: "renderEach reg host cs st1 = Inl (m, st')" by simp
    from Cons.IH [OF rest] obtain pre e post st2 err c'
      where p: "cs = pre @ e # post" "renderEach reg host pre st1 = Inr st2"
        "createComponent reg host (comp_type e) (dynamicContainer st2) (comp_data e) = Inl (err, c')"
        "m = failureMessage e err" "st' = st2\<lparr>dynamicContainer := c'\<rparr>"
      by blast
    have "a # cs = (a # pre) @ e # post" and "renderEach reg host (a # pre) st = Inr st2"
      using p Inr by simp_all
    with p(3-5) show ?thesis by blast
  qed
qed

lemma renderEach_stops:
  assumes "renderEach reg host pre st = Inr st1"
    and "createComponent reg host (comp_type e) (dynamicContainer st1) (comp_data e) = Inl (err, c')"
  shows "renderEach reg host (pre @ e # post) st
           = Inl (failureMessage e err, st1\<lparr>dynamicContainer := c'\<rparr>)"
  using assms by (simp add: renderEach_append renderSingleComponent_fails)

lemma renderComponents_no_entries:
  assumes "aguiMessage st = None \<or> (\<exists>msg. aguiMessage st = Some msg \<and> components msg = None)"
  shows "renderComponents reg host t0 t1 st = clearComponents st"
  using assms by (auto simp: renderComponents_def)

text \<open>
  C8, as the code has it. Without a message, or with a message that has no entry list,
  the call is \<^verbatim>\<open>clearComponents\<close>: no instance, every statistic zero, nothing emitted.
  An empty entry list is not caught by the guard and runs a pass over no entries: no
  instance, no count, no fallback and no error, but the pass is timed and reported, so
  \<^verbatim>\<open>renderTime\<close> is the time elapsed and one completion event carries these statistics.
\<close>

theorem renderComponents_nothing_to_render:
  "((aguiMessage st = None \<or> (\<exists>msg. aguiMessage st = Some msg \<and> components msg = None)) \<longrightarrow>
       createdComponents (renderComponents reg host t0 t1 st) = []
     \<and> renderStats (renderComponents reg host t0 t1 st) = zeroStats
     \<and> renderComplete (renderComponents reg host t0 t1 st) = renderComplete st
     \<and> renderError (renderComponents reg host t0 t1 st) = renderError st)
   \<and> ((\<exists>msg. aguiMessage st = Some msg \<and> components msg = Some []) \<longrightarrow>
       createdComponents (renderComponents reg host t0 t1 st) = []
     \<and> renderStats (renderComponents reg host t0 t1 st) = zeroStats\<lparr>renderTime := t1 - t0\<rparr>
     \<and> renderComplete (renderComponents reg host t0 t1 st)
         = renderComplete st @ [zeroStats\<lparr>renderTime := t1 - t0\<rparr>]
     \<and> renderError (renderComponents reg host t0 t1 st) = renderError st
     \<and> renderErrorMessage (renderComponents reg host t0 t1 st) = None
     \<and> \<not> isRendering (renderComponents reg host t0 t1 st))"
proof (intro conjI impI)
  assume a: "aguiMessage st = None \<or> (\<exists>msg. aguiMessage st = Some msg \<and> components msg = None)"
  have r: "renderComponents reg host t0 t1 st = clearComponents st"
    using a by (rule renderComponents_no_entries)
  show "createdComponents (renderComponents reg host t0 t1 st) = []"
    and "renderStats (renderComponents reg host t0 t1 st) = zeroStats"
    and "renderComplete (renderComponents reg host t0 t1 st) = renderComplete st"
    and "renderError (renderComponents reg host t0 t1 st) = renderError st"
    unfolding r by (simp_all add: clearComponents_def destroyAllComponents_def resetRenderStats_def)
next
  assume "\<exists>msg. aguiMessage st = Some msg \<and> components msg = Some []"
  then obtain msg where m: "aguiMessage st = Some msg" "components msg = Some []" by blast
  have s: "sortedComponents st [] = []" by (simp add: sortedComponents_def slice0_def)
  note r = renderComponents_entries [OF m, of reg host t0 t1, unfolded s renderEach.simps sum.case]
  show "createdComponents (renderComponents reg host t0 t1 st) = []"
    and "renderStats (renderComponents reg host t0 t1 st) = zeroStats\<lparr>renderTime := t1 - t0\<rparr>"
    and "renderComplete (renderComponents reg host t0 t1 st)
         = renderComplete st @ [zeroStats\<lparr>renderTime := t1 - t0\<rparr>]"
    and "renderError (renderComponents reg host t0 t1 st) = renderError st"
    and "renderErrorMessage (renderComponents reg host t0 t1 st) = None"
    and "\<not> isRendering (renderComponents reg host t0 t1 st)"
    unfolding r by (simp_all add: passStart_fields)
qed

theorem renderComponents_nothing_to_render_witness:
  "aguiMessage (rendererWith None) = None
   \<and> renderStats (renderComponents probeRegistry acceptingHost 10 15 (rendererWith None)) = zeroStats
   \<and> renderComplete (renderComponents probeRegistry acceptingHost 10 15 (rendererWith None)) = []
   \<and> aguiMessage (rendererWith (Some (manifest ''1.0'' (Some [])))) = Some (manifest ''1.0'' (Some []))
   \<and> components (manifest ''1.0'' (Some [])) = Some []
   \<and> createdComponents (renderComponents probeRegistry acceptingHost 10 15
        (rendererWith (Some (manifest ''1.0'' (Some []))))) = []
   \<and> renderStats (renderComponents probeRegistry acceptingHost 10 15
        (rendererWith (Some (manifest ''1.0'' (Some [])))))
       = \<lparr>totalComponents = 0, componentsByType = [], componentsByCategory = [],
          renderTime = 5, fallbacksUsed = 0\<rparr>
   \<and> renderComplete (renderComponents probeRegistry acceptingHost 10 15
        (rendererWith (Some (manifest ''1.0'' (Some [])))))
       = [\<lparr>totalComponents = 0, componentsByType = [], componentsByCategory = [],
           renderTime = 5, fallbacksUsed = 0\<rparr>]"
proof -
  have a: "aguiMessage (rendererWith None) = None"
    by (simp add: rendererWith_def newRenderer_def)
  have b: "aguiMessage (rendererWith (Some (manifest ''1.0'' (Some [])))) = Some (manifest ''1.0'' (Some []))"
    by (simp add: rendererWith_def newRenderer_def)
  have c: "components (manifest ''1.0'' (Some [])) = Some []"
    by (simp add: manifest_def)
  have e: "renderComplete (rendererWith m) = []" for m
    by (simp add: rendererWith_def newRenderer_def)
  from renderComponents_nothing_to_render [of "rendererWith None" probeRegistry acceptingHost 10 15] a
  have n: "renderStats (renderComponents probeRegistry acceptingHost 10 15 (rendererWith None)) = zeroStats"
    "renderComplete (renderComponents probeRegistry acceptingHost 10 15 (rendererWith None)) = []"
    by (simp_all add: e)
  from renderComponents_nothing_to_render
         [of "rendererWith (Some (manifest ''1.0'' (Some [])))" probeRegistry acceptingHost 10 15] b c
  have p: "createdComponents (renderComponents probeRegistry acceptingHost 10 15
        (rendererWith (Some (manifest ''1.0'' (Some []))))) = []"
    "renderStats (renderComponents probeRegistry acceptingHost 10 15
        (rendererWith (Some (manifest ''1.0'' (Some []))))) = zeroStats\<lparr>renderTime := 15 - 10\<rparr>"
    "renderComplete (renderComponents probeRegistry acceptingHost 10 15
        (rendererWith (Some (manifest ''1.0'' (Some []))))) = [zeroStats\<lparr>renderTime := 15 - 10\<rparr>]"
    by (simp_all add: e)
  show ?thesis using a b c n p by (simp add: zeroStats_def)
qed

text \<open>The claim as first stated asks for \<^verbatim>\<open>renderTime\<close> 0 and no report after an empty
  entry list; a pass from reading 10 to reading 15 of the clock leaves 5 there.\<close>

theorem empty_entry_list_counterexample:
  "components (manifest ''1.0'' (Some [])) = Some []
   \<and> renderTime (renderStats (renderComponents probeRegistry acceptingHost 10 15
        (rendererWith (Some (manifest ''1.0'' (Some [])))))) = 5
   \<and> renderStats (renderComponents probeRegistry acceptingHost 10 15
        (rendererWith (Some (manifest ''1.0'' (Some []))))) \<noteq> zeroStats
   \<and> renderComplete (renderComponents probeRegistry acceptingHost 10 15
        (rendererWith (Some (manifest ''1.0'' (Some [])))))
       = [\<lparr>totalComponents = 0, componentsByType = [], componentsByCategory = [],
           renderTime = 5, fallbacksUsed = 0\<rparr>]"
  by (simp add: renderer_defs input_defs)

section \<open>Renderer: a failing entry\<close>

text \<open>
  C5. Let the sorted and truncated entries be \<open>pre @ e # post\<close>, let the loop create
  the entries of \<open>pre\<close>, and let the creation of \<open>e\<close> fail with \<open>err\<close>. Then the pass ends
  there: the managed instances are those of \<open>pre\<close>, one for each and in order, all of
  them still mounted; nothing of \<open>post\<close> is touched; no completion event is emitted; and
  one render error is, whose message names the id and the type of \<open>e\<close> and the text of
  \<open>err\<close>.
\<close>

theorem render_pass_stops_at_failure:
  assumes "aguiMessage st = Some msg" and "components msg = Some cs"
    and "sortedComponents st cs = pre @ e # post"
    and "renderEach reg host pre (passStart st) = Inr st1"
    and "createComponent reg host (comp_type e) (dynamicContainer st1) (comp_data e) = Inl (err, c')"
  shows "renderComponents reg host t0 t1 st =
           st1\<lparr>dynamicContainer := c',
               renderErrorMessage := Some (failureMessage e err),
               renderError := renderError st @ [failureMessage e err],
               isRendering := False\<rparr>
       \<and> list_all2 renderedFor (createdComponents (renderComponents reg host t0 t1 st)) pre
       \<and> length (createdComponents (renderComponents reg host t0 t1 st)) = length pre
       \<and> totalComponents (renderStats (renderComponents reg host t0 t1 st)) = length pre
       \<and> (\<forall>ref \<in> set (createdComponents (renderComponents reg host t0 t1 st)).
             hostView ref \<in> set (views (dynamicContainer (renderComponents reg host t0 t1 st))))
       \<and> renderComplete (renderComponents reg host t0 t1 st) = renderComplete st
       \<and> renderError (renderComponents reg host t0 t1 st) = renderError st @ [failureMessage e err]
       \<and> renderErrorMessage (renderComponents reg host t0 t1 st) = Some (failureMessage e err)
       \<and> failureMessage e err =
           ''Failed to render component '' @ comp_id e @ '' of type '' @ comp_type e @ '': ''
             @ error_text err"
proof -
  let ?R = "renderComponents reg host t0 t1 st"
  from renderEach_frame [OF assms(4)]
  have fr: "renderError st1 = renderError st" "renderComplete st1 = renderComplete st"
    "totalComponents (renderStats st1) = length pre"
    by (simp_all add: passStart_fields zeroStats_def)
  have R: "?R = st1\<lparr>dynamicContainer := c',
               renderErrorMessage := Some (failureMessage e err),
               renderError := renderError st @ [failureMessage e err],
               isRendering := False\<rparr>"
    using renderComponents_entries [OF assms(1,2), of reg host t0 t1]
      renderEach_stops [OF assms(4,5), of post] assms(3) fr
    by simp
  from renderEach_Inr [OF assms(4)] obtain refs
    where c: "createdComponents st1 = refs"
      and l: "list_all2 renderedFor refs pre"
      and v: "views (dynamicContainer st1) = map hostView refs"
    by (auto simp: passStart_fields)
  have len: "length refs = length pre" using l by (rule list_all2_lengthD)
  from createComponent_container(2) [OF assms(5)]
  have "set (views (dynamicContainer st1)) \<subseteq> set (views c')"
    by (auto simp: mount_def)
  then have mounted: "\<forall>ref \<in> set refs. hostView ref \<in> set (views c')"
    using v by auto
  show ?thesis
    unfolding R using c l len mounted fr by (simp add: failureMessage_def)
qed

theorem render_pass_stops_at_failure_witness:
  "sortedComponents (rendererWith (Some (manifest ''1.0'' (Some threeEntries)))) threeEntries
     = [entry ''c1'' ''text_section'' 1 ''content''] @ entry ''c2'' ''checklist'' 2 ''action''
         # [entry ''c3'' ''text_section'' 3 ''content'']
   \<and> length (createdComponents (renderComponents initializeRegistry
         (rejectingHost ''ChecklistComponent'') 0 1
         (rendererWith (Some (manifest ''1.0'' (Some threeEntries)))))) = 1
   \<and> renderComplete (renderComponents initializeRegistry
         (rejectingHost ''ChecklistComponent'') 0 1
         (rendererWith (Some (manifest ''1.0'' (Some threeEntries))))) = []
   \<and> renderError (renderComponents initializeRegistry
         (rejectingHost ''ChecklistComponent'') 0 1
         (rendererWith (Some (manifest ''1.0'' (Some threeEntries)))))
       = [''Failed to render component c2 of type checklist: Error: host rejected'']"
proof -
  let ?st = "rendererWith (Some (manifest ''1.0'' (Some threeEntries)))"
  let ?host = "rejectingHost ''ChecklistComponent''"
  have a: "aguiMessage ?st = Some (manifest ''1.0'' (Some threeEntries))"
    by (simp add: rendererWith_def newRenderer_def)
  have b: "components (manifest ''1.0'' (Some threeEntries)) = Some threeEntries"
    by (simp add: manifest_def)
  have s: "sortedComponents ?st threeEntries
     = [entry ''c1'' ''text_section'' 1 ''content''] @ entry ''c2'' ''checklist'' 2 ''action''
         # [entry ''c3'' ''text_section'' 3 ''content'']"
    by (simp add: sortedComponents_def slice0_def threeEntries_def rendererWith_def
        newRenderer_def entry_def)
  have "\<exists>st1. renderEach initializeRegistry ?host [entry ''c1'' ''text_section'' 1 ''content'']
          (passStart ?st) = Inr st1 \<and> dynamicContainer st1 = \<lparr>views = [0], allocated = 1\<rparr>"
    by (simp add: passStart_def renderer_defs input_defs creation_defs registry_defs)
  then obtain st1
    where p: "renderEach initializeRegistry ?host [entry ''c1'' ''text_section'' 1 ''content'']
          (passStart ?st) = Inr st1"
      and d: "dynamicContainer st1 = \<lparr>views = [0], allocated = 1\<rparr>"
    by blast
  have f: "createComponent initializeRegistry ?host
             (comp_type (entry ''c2'' ''checklist'' 2 ''action'')) (dynamicContainer st1)
             (comp_data (entry ''c2'' ''checklist'' 2 ''action''))
           = Inl (HostFailure ''Error: host rejected'', dynamicContainer st1)"
    unfolding d by (simp add: input_defs creation_defs registry_defs)
  have e: "renderError ?st = []" "renderComplete ?st = []"
    by (simp_all add: rendererWith_def newRenderer_def)
  note t = render_pass_stops_at_failure [OF a b s p f, of 0 1]
  note rest = t [THEN conjunct2, THEN conjunct2]
  have n: "length (createdComponents (renderComponents initializeRegistry ?host 0 1 ?st)) = 1"
    using rest [THEN conjunct1] by simp
  note rest' = rest [THEN conjunct2, THEN conjunct2, THEN conjunct2]
  have c: "renderComplete (renderComponents initializeRegistry ?host 0 1 ?st) = []"
    using rest' [THEN conjunct1] e by simp
  have r: "renderError (renderComponents initializeRegistry ?host 0 1 ?st)
             = [''Failed to render component c2 of type checklist: Error: host rejected'']"
    using rest' [THEN conjunct2, THEN conjunct1] e
    by (simp add: failureMessage_def error_text_def entry_def)
  show ?thesis using s n c r by blast
qed

section \<open>Renderer: order and cap\<close>

lemma renderSingleComponent_aguiMessage:
  "renderSingleComponent reg host a (st\<lparr>aguiMessage := m\<rparr>) =
     (case renderSingleComponent reg host a st of
        Inl (message, s) \<Rightarrow> Inl (message, s\<lparr>aguiMessage := m\<rparr>)
      | Inr s \<Rightarrow> Inr (s\<lparr>aguiMessage := m\<rparr>))"
  by (simp add: renderSingleComponent_def updateRenderStats_def split: sum.splits prod.splits)

lemma renderEach_aguiMessage:
  "renderEach reg host cs (st\<lparr>aguiMessage := m\<rparr>) =
     (case renderEach reg host cs st of
        Inl (message, s) \<Rightarrow> Inl (message, s\<lparr>aguiMessage := m\<rparr>)
      | Inr s \<Rightarrow> Inr (s\<lparr>aguiMessage := m\<rparr>))"
proof (induction cs arbitrary: st)
  case Nil
  show ?case by simp
next
  case (Cons a cs)
  show ?case
    by (cases "renderSingleComponent reg host a st")
       (auto simp: renderSingleComponent_aguiMessage Cons.IH)
qed

lemma passStart_aguiMessage:
  "passStart (st\<lparr>aguiMessage := m\<rparr>) = (passStart st)\<lparr>aguiMessage := m\<rparr>"
  by (simp add: passStart_def resetRenderStats_def destroyAllComponents_def)

lemma sortedComponents_take:
  "0 \<le> maxComponents st \<Longrightarrow>
     sortedComponents st cs = take (nat (maxComponents st)) (sort_key priority cs)"
  by (simp add: sortedComponents_def slice0_def)

lemma sortedComponents_again:
  assumes "0 \<le> maxComponents st"
  shows "sortedComponents (st\<lparr>aguiMessage := m\<rparr>) (sortedComponents st cs) = sortedComponents st cs"
proof -
  let ?n = "nat (maxComponents st)"
  have "sorted (map priority (take ?n (sort_key priority cs)))"
    by (simp add: take_map [symmetric])
  then have "sort_key priority (take ?n (sort_key priority cs)) = take ?n (sort_key priority cs)"
    by (rule sort_key_id_if_sorted)
  then show ?thesis
    using assms by (simp add: sortedComponents_def slice0_def)
qed

text \<open>A pass sees of the manifest only the sorted and truncated entries: replacing the
  entry list by them changes nothing but the stored message.\<close>

lemma renderComponents_truncated:
  assumes "aguiMessage st = Some msg" and "components msg = Some cs"
    and "0 \<le> maxComponents st"
  shows "renderComponents reg host t0 t1
           (st\<lparr>aguiMessage := Some (msg\<lparr>components := Some (sortedComponents st cs)\<rparr>)\<rparr>)
         = (renderComponents reg host t0 t1 st)
             \<lparr>aguiMessage := Some (msg\<lparr>components := Some (sortedComponents st cs)\<rparr>)\<rparr>"
proof -
  let ?m = "Some (msg\<lparr>components := Some (sortedComponents st cs)\<rparr>)"
  have a: "aguiMessage (st\<lparr>aguiMessage := ?m\<rparr>) = Some (msg\<lparr>components := Some (sortedComponents st cs)\<rparr>)"
    and b: "components (msg\<lparr>components := Some (sortedComponents st cs)\<rparr>) = Some (sortedComponents st cs)"
    by simp_all
  show ?thesis
    unfolding renderComponents_entries [OF a b] renderComponents_entries [OF assms(1,2)]
      sortedComponents_again [OF assms(3)] passStart_aguiMessage renderEach_aguiMessage
    by (cases "renderEach reg host (sortedComponents st cs) (passStart st)") auto
qed

lemma renderComponents_created:
  assumes "aguiMessage st = Some msg" and "components msg = Some cs"
  shows "\<exists>k \<le> length (sortedComponents st cs).
           list_all2 renderedFor (createdComponents (renderComponents reg host t0 t1 st))
             (take k (sortedComponents st cs))
         \<and> (renderError (renderComponents reg host t0 t1 st) = renderError st
              \<longrightarrow> k = length (sortedComponents st cs))"
proof (cases "renderEach reg host (sortedComponents st cs) (passStart st)")
  case (Inr st3)
  from renderEach_Inr [OF Inr] have "list_all2 renderedFor (createdComponents st3) (sortedComponents st cs)"
    by (auto simp: passStart_fields)
  then show ?thesis
    using renderComponents_entries [OF assms, of reg host t0 t1] Inr by auto
next
  case (Inl failure)
  obtain m st3 where f: "failure = (m, st3)" by (cases failure)
  from renderEach_Inl [OF Inl [unfolded f]] obtain pre e post st1 c'
    where p: "sortedComponents st cs = pre @ e # post"
      "renderEach reg host pre (passStart st) = Inr st1" "st3 = st1\<lparr>dynamicContainer := c'\<rparr>"
    by blast
  from renderEach_Inr [OF p(2)] have l: "list_all2 renderedFor (createdComponents st1) pre"
    by (auto simp: passStart_fields)
  from renderEach_frame [OF p(2)] have e: "renderError st1 = renderError st"
    by (simp add: passStart_fields)
  have R: "renderComponents reg host t0 t1 st
             = st3\<lparr>renderErrorMessage := Some m, renderError := renderError st3 @ [m],
                   isRendering := False\<rparr>"
    using renderComponents_entries [OF assms, of reg host t0 t1] Inl f by simp
  have "length pre \<le> length (sortedComponents st cs)"
    and "list_all2 renderedFor (createdComponents (renderComponents reg host t0 t1 st))
           (take (length pre) (sortedComponents st cs))"
    and "renderError (renderComponents reg host t0 t1 st) \<noteq> renderError st"
    unfolding R using p(1,3) l e by simp_all
  then show ?thesis by blast
qed

text \<open>
  C4. For a manifest with an entry list and a cap that is not negative, the pass works
  on the entries sorted by ascending priority, entries of one priority in manifest
  order, cut to the cap (50 unless configured). No entry kept has a higher priority
  than one dropped. The managed instances follow that list from its start, one for each
  entry and in order, and cover all of it when the pass publishes no error. The entries
  cut off do not reach the pass: it ends as it would had the manifest held the kept
  entries only, with every instance, statistic, event and error the same.
\<close>

theorem render_sorted_and_capped:
  assumes "aguiMessage st = Some msg" and "components msg = Some cs"
    and "0 \<le> maxComponents st"
  shows "sortedComponents st cs = take (nat (maxComponents st)) (sort_key priority cs)
       \<and> sorted (map priority (sort_key priority cs))
       \<and> (\<forall>p. filter (\<lambda>c. priority c = p) (sort_key priority cs) = filter (\<lambda>c. priority c = p) cs)
       \<and> (\<forall>kept \<in> set (sortedComponents st cs).
            \<forall>dropped \<in> set (drop (nat (maxComponents st)) (sort_key priority cs)).
              priority kept \<le> priority dropped)
       \<and> (\<exists>k \<le> length (sortedComponents st cs).
            list_all2 renderedFor (createdComponents (renderComponents reg host t0 t1 st))
              (take k (sortedComponents st cs))
            \<and> (renderError (renderComponents reg host t0 t1 st) = renderError st
                 \<longrightarrow> k = length (sortedComponents st cs)))
       \<and> renderComponents reg host t0 t1
            (st\<lparr>aguiMessage := Some (msg\<lparr>components := Some (sortedComponents st cs)\<rparr>)\<rparr>)
          = (renderComponents reg host t0 t1 st)
              \<lparr>aguiMessage := Some (msg\<lparr>components := Some (sortedComponents st cs)\<rparr>)\<rparr>
       \<and> maxComponents (newRenderer c :: 'a renderer) = 50"
proof -
  let ?n = "nat (maxComponents st)"
  let ?s = "sort_key priority cs"
  have t: "sortedComponents st cs = take ?n ?s"
    using assms(3) by (rule sortedComponents_take)
  have "sorted (map priority (take ?n ?s @ drop ?n ?s))" by simp
  then have "\<forall>x \<in> set (take ?n ?s). \<forall>y \<in> set (drop ?n ?s). priority x \<le> priority y"
    unfolding map_append sorted_append by auto
  then have low: "\<forall>kept \<in> set (sortedComponents st cs).
            \<forall>dropped \<in> set (drop ?n ?s). priority kept \<le> priority dropped"
    unfolding t .
  have stable: "\<forall>p. filter (\<lambda>c. priority c = p) ?s = filter (\<lambda>c. priority c = p) cs"
    by (simp add: sort_key_stable)
  show ?thesis
    using t low stable renderComponents_created [OF assms(1,2), of reg host t0 t1]
      renderComponents_truncated [OF assms, of reg host t0 t1]
    by (simp add: newRenderer_def)
qed

theorem render_sorted_and_capped_witness:
  "aguiMessage cappedRenderer = Some (manifest ''1.0'' (Some threeEntries))
   \<and> components (manifest ''1.0'' (Some threeEntries)) = Some threeEntries
   \<and> 0 \<le> maxComponents cappedRenderer
   \<and> sortedComponents cappedRenderer threeEntries
       = [entry ''c1'' ''text_section'' 1 ''content'', entry ''c2'' ''checklist'' 2 ''action'']
   \<and> list_all2 renderedFor
         (createdComponents (renderComponents probeRegistry acceptingHost 0 1 cappedRenderer))
         [entry ''c1'' ''text_section'' 1 ''content'', entry ''c2'' ''checklist'' 2 ''action'']"
proof -
  let ?R = "renderComponents probeRegistry acceptingHost 0 1 cappedRenderer"
  have a: "aguiMessage cappedRenderer = Some (manifest ''1.0'' (Some threeEntries))"
    by (simp add: cappedRenderer_def rendererWith_def newRenderer_def)
  have b: "components (manifest ''1.0'' (Some threeEntries)) = Some threeEntries"
    by (simp add: manifest_def)
  have c: "0 \<le> maxComponents cappedRenderer"
    by (simp add: cappedRenderer_def)
  have s: "sortedComponents cappedRenderer threeEntries
       = [entry ''c1'' ''text_section'' 1 ''content'', entry ''c2'' ''checklist'' 2 ''action'']"
    by (simp add: sortedComponents_def slice0_def threeEntries_def cappedRenderer_def entry_def)
  have e: "renderError ?R = renderError cappedRenderer"
    by (simp add: renderer_defs input_defs creation_defs registry_defs)
  note t = render_sorted_and_capped [OF a b c, of probeRegistry acceptingHost 0 1]
  from t obtain k
    where k: "list_all2 renderedFor (createdComponents ?R) (take k (sortedComponents cappedRenderer threeEntries))"
      "renderError ?R = renderError cappedRenderer \<longrightarrow> k = length (sortedComponents cappedRenderer threeEntries)"
    by blast
  from k e have "list_all2 renderedFor (createdComponents ?R) (sortedComponents cappedRenderer threeEntries)"
    by simp
  then show ?thesis using a b c s by simp
qed

section \<open>Renderer: the bridges\<close>

text \<open>Which callbacks a created widget ends up with: the bridge for its entry where its
  class defines the callback, none where it does not.\<close>

lemma renderSingleComponent_hooks:
  assumes "renderSingleComponent reg host a st = Inr st'"
  shows "\<exists>result c'.
           createComponent reg host (comp_type a) (dynamicContainer st) (comp_data a) = Inr (result, c')
         \<and> onInteraction (instance_of (last (createdComponents st')))
             = (if definesOnInteraction (componentClass (metadata result))
                then Some (RendererBridge a) else None)
         \<and> onDataChange (instance_of (last (createdComponents st')))
             = (if definesOnDataChange (componentClass (metadata result))
                then Some (RendererBridge a) else None)"
  using assms
  by (auto simp: renderSingleComponent_def updateRenderStats_def setupComponentEventHandlers_def
      setupComponentMetadata_def createComponent_def instantiate_def Let_def
      split: sum.splits prod.splits option.splits host_outcome.splits)

lemma created_renderedFor:
  assumes "aguiMessage st = Some msg" and "components msg = Some cs"
    and "i < length (createdComponents (renderComponents reg host t0 t1 st))"
  shows "i < length (sortedComponents st cs)
       \<and> renderedFor (createdComponents (renderComponents reg host t0 t1 st) ! i)
            (sortedComponents st cs ! i)"
proof -
  let ?R = "renderComponents reg host t0 t1 st"
  from renderComponents_created [OF assms(1,2), of reg host t0 t1] obtain k
    where k: "k \<le> length (sortedComponents st cs)"
      and l: "list_all2 renderedFor (createdComponents ?R) (take k (sortedComponents st cs))"
    by blast
  from l have len: "length (createdComponents ?R) = length (take k (sortedComponents st cs))"
    by (rule list_all2_lengthD)
  with assms(3) k have i: "i < k" by simp
  from l assms(3) have "renderedFor (createdComponents ?R ! i) (take k (sortedComponents st cs) ! i)"
    by (rule list_all2_nthD)
  with i k show ?thesis by simp
qed

text \<open>
  C3. Take a widget created in a pass, the one at position \<open>i\<close> of the managed
  instances, which carries an interaction callback (as it does exactly when its class
  provides one, by \<open>renderSingleComponent_hooks\<close>). It was created for the \<open>i\<close>-th of
  the sorted entries, and one call of that callback with an event \<open>ev\<close> adds exactly one
  interaction event to what the host receives and changes nothing else. The event has
  that entry's id and type, the type of \<open>ev\<close> (\<^verbatim>\<open>click\<close> for a click, \<^verbatim>\<open>interaction\<close>
  when \<open>ev\<close> has none), \<open>ev\<close> itself as its data, and the clock's reading at the call as
  its timestamp: a timestamp at or after the start of the pass whenever the clock, read
  at the call, is not behind its reading at the start.
\<close>

theorem interaction_bridge:
  assumes "aguiMessage st = Some msg" and "components msg = Some cs"
    and "i < length (createdComponents (renderComponents reg host t0 t1 st))"
    and "onInteraction (instance_of (createdComponents (renderComponents reg host t0 t1 st) ! i)) \<noteq> None"
    and "passStarted \<le> now"
  shows "i < length (sortedComponents st cs)
       \<and> invokeOnInteraction i ev now (renderComponents reg host t0 t1 st)
           = (renderComponents reg host t0 t1 st)
               \<lparr>componentInteraction :=
                  componentInteraction (renderComponents reg host t0 t1 st) @
                    [\<lparr>i_componentId = comp_id (sortedComponents st cs ! i),
                      i_componentType = comp_type (sortedComponents st cs ! i),
                      eventType = eventTypeOf ev,
                      eventData = ev,
                      i_timestamp = now\<rparr>]\<rparr>
       \<and> (event_type ev = Some ''click'' \<longrightarrow> eventTypeOf ev = ''click'')
       \<and> (event_type ev = None \<longrightarrow> eventTypeOf ev = ''interaction'')
       \<and> passStarted
           \<le> i_timestamp (last (componentInteraction
                 (invokeOnInteraction i ev now (renderComponents reg host t0 t1 st))))"
proof -
  let ?R = "renderComponents reg host t0 t1 st"
  from created_renderedFor [OF assms(1-3)]
  have i: "i < length (sortedComponents st cs)"
    and r: "renderedFor (createdComponents ?R ! i) (sortedComponents st cs ! i)"
    by simp_all
  from r assms(4)
  have h: "onInteraction (instance_of (createdComponents ?R ! i))
             = Some (RendererBridge (sortedComponents st cs ! i))"
    by (auto simp: renderedFor_def)
  have inv: "invokeOnInteraction i ev now ?R
           = ?R\<lparr>componentInteraction :=
                  componentInteraction ?R @
                    [\<lparr>i_componentId = comp_id (sortedComponents st cs ! i),
                      i_componentType = comp_type (sortedComponents st cs ! i),
                      eventType = eventTypeOf ev,
                      eventData = ev,
                      i_timestamp = now\<rparr>]\<rparr>"
    using assms(3) h by (simp add: invokeOnInteraction_def)
  have "passStarted \<le> i_timestamp (last (componentInteraction (invokeOnInteraction i ev now ?R)))"
    unfolding inv using assms(5) by simp
  then show ?thesis
    using i inv by (simp add: eventTypeOf_def)
qed

lemma probeRendered_bridges:
  "aguiMessage probeRenderer = Some (manifest ''1.0'' (Some [oneEntry]))"
  "components (manifest ''1.0'' (Some [oneEntry])) = Some [oneEntry]"
  "sortedComponents probeRenderer [oneEntry] = [oneEntry]"
  "length (createdComponents probeRendered) = 1"
  "onInteraction (instance_of (createdComponents probeRendered ! 0)) = Some (RendererBridge oneEntry)"
  "onDataChange (instance_of (createdComponents probeRendered ! 0)) = Some (RendererBridge oneEntry)"
  "componentInteraction probeRendered = []"
  "componentDataChange probeRendered = []"
  "own_fields (data (instance_of (createdComponents probeRendered ! 0))) = Some 0"
  by (simp_all add: renderer_defs input_defs creation_defs registry_defs)

theorem interaction_bridge_witness:
  "aguiMessage probeRenderer = Some (manifest ''1.0'' (Some [oneEntry]))
   \<and> components (manifest ''1.0'' (Some [oneEntry])) = Some [oneEntry]
   \<and> length (createdComponents probeRendered) = 1
   \<and> onInteraction (instance_of (createdComponents probeRendered ! 0)) = Some (RendererBridge oneEntry)
   \<and> event_type clickEvent = Some ''click''
   \<and> event_type untypedEvent = None
   \<and> componentInteraction (invokeOnInteraction 0 clickEvent 100 probeRendered)
       = [\<lparr>i_componentId = ''c1'', i_componentType = ''text_section'', eventType = ''click'',
           eventData = clickEvent, i_timestamp = 100\<rparr>]
   \<and> componentInteraction (invokeOnInteraction 0 untypedEvent 100 probeRendered)
       = [\<lparr>i_componentId = ''c1'', i_componentType = ''text_section'', eventType = ''interaction'',
           eventData = untypedEvent, i_timestamp = 100\<rparr>]"
proof -
  note b = probeRendered_bridges
  have i: "0 < length (createdComponents (renderComponents probeRegistry acceptingHost 0 1 probeRenderer))"
    and h: "onInteraction (instance_of
              (createdComponents (renderComponents probeRegistry acceptingHost 0 1 probeRenderer) ! 0)) \<noteq> None"
    using b(4,5) by (simp_all add: probeRendered_def)
  have t: "(50::int) \<le> 100" by simp
  have c: "event_type clickEvent = Some ''click''" and u: "event_type untypedEvent = None"
    by (simp_all add: clickEvent_def untypedEvent_def)
  have ids: "comp_id oneEntry = ''c1''" "comp_type oneEntry = ''text_section''"
    by (simp_all add: oneEntry_def entry_def)
  note click = interaction_bridge [OF b(1,2) i h t, of clickEvent, folded probeRendered_def]
  note plain = interaction_bridge [OF b(1,2) i h t, of untypedEvent, folded probeRendered_def]
  have tc: "eventTypeOf clickEvent = ''click''" using click c by blast
  have tu: "eventTypeOf untypedEvent = ''interaction''" using plain u by blast
  have 1: "componentInteraction (invokeOnInteraction 0 clickEvent 100 probeRendered)
       = [\<lparr>i_componentId = ''c1'', i_componentType = ''text_section'', eventType = ''click'',
           eventData = clickEvent, i_timestamp = 100\<rparr>]"
    unfolding click [THEN conjunct2, THEN conjunct1] by (simp add: b tc ids)
  have 2: "componentInteraction (invokeOnInteraction 0 untypedEvent 100 probeRendered)
       = [\<lparr>i_componentId = ''c1'', i_componentType = ''text_section'', eventType = ''interaction'',
           eventData = untypedEvent, i_timestamp = 100\<rparr>]"
    unfolding plain [THEN conjunct2, THEN conjunct1] by (simp add: b tu ids)
  show ?thesis using b(1,2,4,5) c u 1 2 by blast
qed

text \<open>
  C6, as the code has it. Take a widget created in a pass, at position \<open>i\<close> of the
  managed instances, which carries a data-change callback. It was created for the
  \<open>i\<close>-th of the sorted entries, and one call of that callback with \<open>newD\<close> adds exactly
  one data-change event to what the host receives: that entry's id and type, the data the
  widget holds at the call as \<^verbatim>\<open>oldData\<close>, \<open>newD\<close> as \<^verbatim>\<open>newData\<close>, and the clock's reading.
  Nothing else changes; in particular the managed instances, and with them the data the
  renderer holds for the widget, stay as they were. (A widget of the repository assigns
  the new data to itself after the callback has returned.)
\<close>

theorem data_change_bridge:
  assumes "aguiMessage st = Some msg" and "components msg = Some cs"
    and "i < length (createdComponents (renderComponents reg host t0 t1 st))"
    and "onDataChange (instance_of (createdComponents (renderComponents reg host t0 t1 st) ! i)) \<noteq> None"
  shows "i < length (sortedComponents st cs)
       \<and> invokeOnDataChange i newD now (renderComponents reg host t0 t1 st)
           = (renderComponents reg host t0 t1 st)
               \<lparr>componentDataChange :=
                  componentDataChange (renderComponents reg host t0 t1 st) @
                    [\<lparr>d_componentId = comp_id (sortedComponents st cs ! i),
                      d_componentType = comp_type (sortedComponents st cs ! i),
                      oldData = data (instance_of
                                  (createdComponents (renderComponents reg host t0 t1 st) ! i)),
                      newData = newD,
                      d_timestamp = now\<rparr>]\<rparr>
       \<and> createdComponents (invokeOnDataChange i newD now (renderComponents reg host t0 t1 st))
           = createdComponents (renderComponents reg host t0 t1 st)"
proof -
  let ?R = "renderComponents reg host t0 t1 st"
  from created_renderedFor [OF assms(1-3)]
  have i: "i < length (sortedComponents st cs)"
    and r: "renderedFor (createdComponents ?R ! i) (sortedComponents st cs ! i)"
    by simp_all
  from r assms(4)
  have h: "onDataChange (instance_of (createdComponents ?R ! i))
             = Some (RendererBridge (sortedComponents st cs ! i))"
    by (auto simp: renderedFor_def)
  show ?thesis
    using i assms(3) h by (simp add: invokeOnDataChange_def)
qed

theorem data_change_bridge_witness:
  "aguiMessage probeRenderer = Some (manifest ''1.0'' (Some [oneEntry]))
   \<and> components (manifest ''1.0'' (Some [oneEntry])) = Some [oneEntry]
   \<and> length (createdComponents probeRendered) = 1
   \<and> onDataChange (instance_of (createdComponents probeRendered ! 0)) = Some (RendererBridge oneEntry)
   \<and> componentDataChange (invokeOnDataChange 0 changedData 100 probeRendered)
       = [\<lparr>d_componentId = ''c1'', d_componentType = ''text_section'',
           oldData = data (instance_of (createdComponents probeRendered ! 0)),
           newData = changedData, d_timestamp = 100\<rparr>]
   \<and> createdComponents (invokeOnDataChange 0 changedData 100 probeRendered)
       = createdComponents probeRendered"
proof -
  note b = probeRendered_bridges
  have i: "0 < length (createdComponents (renderComponents probeRegistry acceptingHost 0 1 probeRenderer))"
    and h: "onDataChange (instance_of
              (createdComponents (renderComponents probeRegistry acceptingHost 0 1 probeRenderer) ! 0)) \<noteq> None"
    using b(4,6) by (simp_all add: probeRendered_def)
  have ids: "comp_id oneEntry = ''c1''" "comp_type oneEntry = ''text_section''"
    by (simp_all add: oneEntry_def entry_def)
  note t = data_change_bridge [OF b(1,2) i h, of changedData 100, folded probeRendered_def]
  have 1: "componentDataChange (invokeOnDataChange 0 changedData 100 probeRendered)
       = [\<lparr>d_componentId = ''c1'', d_componentType = ''text_section'',
           oldData = data (instance_of (createdComponents probeRendered ! 0)),
           newData = changedData, d_timestamp = 100\<rparr>]"
    unfolding t [THEN conjunct2, THEN conjunct1] by (simp add: b ids)
  show ?thesis using b(1,2,4,6) 1 t [THEN conjunct2, THEN conjunct2] by blast
qed

text \<open>The claim as first stated has the renderer's record of the widget's data equal
  the new data after the call; the probe widget, called with new data, is still held with
  the data of its creation.\<close>

theorem data_change_record_counterexample:
  "onDataChange (instance_of (createdComponents probeRendered ! 0)) = Some (RendererBridge oneEntry)
   \<and> own_fields changedData = Some 42
   \<and> own_fields (data (instance_of
        (createdComponents (invokeOnDataChange 0 changedData 100 probeRendered) ! 0))) = Some 0
   \<and> data (instance_of (createdComponents (invokeOnDataChange 0 changedData 100 probeRendered) ! 0))
       \<noteq> changedData"
proof -
  have c: "createdComponents (invokeOnDataChange 0 changedData 100 probeRendered)
             = createdComponents probeRendered"
    by (simp add: invokeOnDataChange_def probeRendered_bridges)
  have d: "own_fields changedData = Some 42" by (simp add: changedData_def)
  have "own_fields (data (instance_of (createdComponents probeRendered ! 0))) \<noteq> own_fields changedData"
    by (simp add: probeRendered_bridges d)
  then have "data (instance_of (createdComponents probeRendered ! 0)) \<noteq> changedData" by auto
  then show ?thesis
    unfolding c using d by (simp add: probeRendered_bridges)
qed

section \<open>Renderer: the version of a manifest\<close>

text \<open>
  C1. The validator of the repository turns a manifest of version \<^verbatim>\<open>2.0\<close> down, where
  it accepts the same manifest as version \<^verbatim>\<open>1.0\<close>, and \<^verbatim>\<open>getMessageStats\<close> answers for
  it as for no entries. The renderer does not look: given the manifest of version
  \<^verbatim>\<open>2.0\<close> it creates and mounts the widget, counts it and reports the pass complete,
  with no error.
\<close>

theorem unsupported_version_is_rendered:
  "version unsupportedVersion = ''2.0''
   \<and> validateAguiMessage (Some unsupportedVersion) = False
   \<and> validateAguiMessage (Some (unsupportedVersion\<lparr>version := ''1.0''\<rparr>)) = True
   \<and> getMessageStats unsupportedVersion
       = \<lparr>componentCount = 0, stats_componentsByType = [], stats_componentsByCategory = []\<rparr>
   \<and> length (createdComponents (renderComponents initializeRegistry acceptingHost 0 1
        (rendererWith (Some unsupportedVersion)))) = 1
   \<and> views (dynamicContainer (renderComponents initializeRegistry acceptingHost 0 1
        (rendererWith (Some unsupportedVersion)))) = [0]
   \<and> renderComplete (renderComponents initializeRegistry acceptingHost 0 1
        (rendererWith (Some unsupportedVersion)))
       = [\<lparr>totalComponents = 1, componentsByType = [(''text_section'', Count 1)],
           componentsByCategory = [(''content'', Count 1)], renderTime = 1, fallbacksUsed = 0\<rparr>]
   \<and> renderError (renderComponents initializeRegistry acceptingHost 0 1
        (rendererWith (Some unsupportedVersion))) = []"
  by (simp add: renderer_defs input_defs creation_defs registry_defs
      validateAguiMessage_def validateComponent_def getMessageStats_def)

section \<open>Renderer: statistics and managed instances\<close>

lemma sumCounts_new:
  "sumCounts table = Some s \<Longrightarrow> map_of table key = None \<Longrightarrow>
     sumCounts (AList.update key (Count n) table) = Some (s + n)"
proof (induction table arbitrary: s rule: sumCounts.induct)
  case 1
  then show ?case by simp
next
  case (2 k m rest)
  then show ?case by (auto split: if_splits)
next
  case (3 k rest)
  then show ?case by simp
qed

lemma sumCounts_bump:
  "sumCounts table = Some s \<Longrightarrow> map_of table key = Some (Count m) \<Longrightarrow>
     sumCounts (AList.update key (Count (m + 1)) table) = Some (s + 1)"
proof (induction table arbitrary: s rule: sumCounts.induct)
  case 1
  then show ?case by simp
next
  case (2 k n rest)
  then show ?case by (auto split: if_splits)
next
  case (3 k rest)
  then show ?case by simp
qed

lemma sumCounts_increment:
  assumes "sumCounts table = Some s" and "key \<notin> set inheritedNames"
  shows "sumCounts (increment table key) = Some (s + 1)"
proof (cases "map_of table key")
  case None
  have "key \<noteq> ''__proto__''" using assms(2) by (auto simp: inheritedNames_def)
  then show ?thesis
    using None assms sumCounts_new [OF assms(1) None, of 1] by (simp add: increment_def)
next
  case (Some cell)
  show ?thesis
  proof (cases cell)
    case (Count m)
    then show ?thesis
      using Some sumCounts_bump [OF assms(1), of key m] by (simp add: increment_def)
  next
    case Text
    have "sumCounts table = None" if "map_of table key = Some Text" for table
      using that
      by (induction table rule: sumCounts.induct) (auto split: if_splits)
    with Some Text assms(1) show ?thesis by simp
  qed
qed

lemma createComponent_actualType:
  "createComponent reg host t c d = Inr (result, c') \<Longrightarrow> reg (actualType result) = Some (metadata result)"
  by (auto simp: createComponent_def findFallbackComponent_def instantiate_def Let_def
      split: option.splits host_outcome.splits prod.splits)

lemma renderSingleComponent_consistent:
  assumes "renderSingleComponent reg host a st = Inr st'" and "statsConsistent st"
    and "\<forall>t \<in> set inheritedNames. reg t = None" and "category a \<notin> set inheritedNames"
  shows "statsConsistent st'"
proof -
  from renderSingleComponent_Inr [OF assms(1)] obtain result ref
    where c: "createComponent reg host (comp_type a) (dynamicContainer st) (comp_data a)
                = Inr (result, mount (dynamicContainer st))"
      and s: "st' = updateRenderStats a result
                   (st\<lparr>dynamicContainer := mount (dynamicContainer st),
                       createdComponents := createdComponents st @ [ref]\<rparr>)"
    by blast
  from createComponent_actualType [OF c] assms(3)
  have t: "actualType result \<notin> set inheritedNames" by auto
  from assms(2)
  have ty: "sumCounts (componentsByType (renderStats st)) = Some (totalComponents (renderStats st))"
    and ca: "sumCounts (componentsByCategory (renderStats st)) = Some (totalComponents (renderStats st))"
    and n: "totalComponents (renderStats st) = length (createdComponents st)"
    by (simp_all add: statsConsistent_def)
  show ?thesis
    unfolding s statsConsistent_def
    using sumCounts_increment [OF ty t] sumCounts_increment [OF ca assms(4)] n
    by (simp add: updateRenderStats_def)
qed

lemma renderEach_consistent:
  assumes "renderEach reg host cs st = Inr st'" and "statsConsistent st"
    and "\<forall>t \<in> set inheritedNames. reg t = None"
    and "\<forall>a \<in> set cs. category a \<notin> set inheritedNames"
  shows "statsConsistent st'"
  using assms(1,2,4)
proof (induction cs arbitrary: st)
  case Nil
  then show ?case by simp
next
  case (Cons a cs)
  from Cons.prems(1) obtain st1
    where one: "renderSingleComponent reg host a st = Inr st1"
      and rest: "renderEach reg host cs st1 = Inr st'"
    by (auto split: sum.splits)
  from renderSingleComponent_consistent [OF one Cons.prems(2) assms(3)] Cons.prems(3)
  have "statsConsistent st1" by simp
  from Cons.IH [OF rest this] Cons.prems(3) show ?case by simp
qed

text \<open>
  The invariant of C10 for keys that are no inherited names: when no registered type and
  no category of the manifest is one, every call of \<^verbatim>\<open>renderComponents\<close>, complete or
  failed, and every call of \<^verbatim>\<open>clearComponents\<close> ends with the total equal to the number
  of managed instances and to the sum of either count table.
\<close>

lemma statsConsistent_clearComponents: "statsConsistent (clearComponents st)"
  by (simp add: statsConsistent_def clearComponents_def resetRenderStats_def
      destroyAllComponents_def zeroStats_def)

lemma statsConsistent_renderComponents:
  assumes "\<forall>t \<in> set inheritedNames. reg t = None"
    and "\<forall>msg cs. aguiMessage st = Some msg \<and> components msg = Some cs
           \<longrightarrow> (\<forall>a \<in> set cs. category a \<notin> set inheritedNames)"
  shows "statsConsistent (renderComponents reg host t0 t1 st)"
proof (cases "case aguiMessage st of None \<Rightarrow> None | Some msg \<Rightarrow> components msg")
  case None
  then have "renderComponents reg host t0 t1 st = clearComponents st"
    by (simp add: renderComponents_def)
  then show ?thesis by (simp add: statsConsistent_clearComponents)
next
  case (Some cs)
  then obtain msg where m: "aguiMessage st = Some msg" "components msg = Some cs"
    by (auto split: option.splits)
  with assms(2) have cat: "\<forall>a \<in> set cs. category a \<notin> set inheritedNames" by blast
  have start: "statsConsistent (passStart st)"
    by (simp add: statsConsistent_def passStart_fields zeroStats_def)
  have sub: "set (sortedComponents st cs) \<subseteq> set cs"
    by (auto simp: sortedComponents_def slice0_def dest: in_set_takeD)
  note R = renderComponents_entries [OF m, of reg host t0 t1]
  show ?thesis
  proof (cases "renderEach reg host (sortedComponents st cs) (passStart st)")
    case (Inr st3)
    from renderEach_consistent [OF Inr start assms(1)] cat sub
    have "statsConsistent st3" by blast
    then show ?thesis
      unfolding R Inr by (simp add: statsConsistent_def)
  next
    case (Inl failure)
    obtain message st3 where f: "failure = (message, st3)" by (cases failure)
    from renderEach_Inl [OF Inl [unfolded f]] obtain pre e post st1 c'
      where p: "sortedComponents st cs = pre @ e # post"
        "renderEach reg host pre (passStart st) = Inr st1" "st3 = st1\<lparr>dynamicContainer := c'\<rparr>"
      by blast
    from p(1) sub cat have "\<forall>a \<in> set pre. category a \<notin> set inheritedNames" by auto
    from renderEach_consistent [OF p(2) start assms(1) this]
    have "statsConsistent st1" .
    then show ?thesis
      unfolding R Inl f p(3) by (simp add: statsConsistent_def)
  qed
qed

text \<open>
  C10. A category that names a member every object inherits breaks the count by
  category. With the one entry's category \<^verbatim>\<open>constructor\<close> the pass ends with one managed
  instance, a total of one and a count by type of one, but the cell of the category holds
  a string, and the table has no sum. With the category \<^verbatim>\<open>__proto__\<close> the table stays
  empty and sums to zero against a total of one.
\<close>

theorem inherited_category_miscounted:
  "length (createdComponents (renderComponents initializeRegistry acceptingHost 0 1
      (rendererWith (Some constructorCategory)))) = 1
   \<and> renderStats (renderComponents initializeRegistry acceptingHost 0 1
        (rendererWith (Some constructorCategory)))
       = \<lparr>totalComponents = 1, componentsByType = [(''text_section'', Count 1)],
          componentsByCategory = [(''constructor'', Text)], renderTime = 1, fallbacksUsed = 0\<rparr>
   \<and> sumCounts (componentsByCategory (renderStats (renderComponents initializeRegistry
        acceptingHost 0 1 (rendererWith (Some constructorCategory))))) = None
   \<and> statsConsistent (renderComponents initializeRegistry acceptingHost 0 1
        (rendererWith (Some constructorCategory))) = False
   \<and> length (createdComponents (renderComponents initializeRegistry acceptingHost 0 1
        (rendererWith (Some protoCategory)))) = 1
   \<and> renderStats (renderComponents initializeRegistry acceptingHost 0 1
        (rendererWith (Some protoCategory)))
       = \<lparr>totalComponents = 1, componentsByType = [(''text_section'', Count 1)],
          componentsByCategory = [], renderTime = 1, fallbacksUsed = 0\<rparr>
   \<and> sumCounts (componentsByCategory (renderStats (renderComponents initializeRegistry
        acceptingHost 0 1 (rendererWith (Some protoCategory))))) = Some 0
   \<and> statsConsistent (renderComponents initializeRegistry acceptingHost 0 1
        (rendererWith (Some protoCategory))) = False"
  by (simp add: renderer_defs input_defs creation_defs registry_defs statsConsistent_def)

end
